theory Spec2Isabelle
  imports Main
begin

section \<open>Data model\<close>

text \<open>
  The module \<^verbatim>\<open>horizons/messaging/messagebus.py\<close> holds three classes:
  \<^verbatim>\<open>MessageBus\<close>, its subclass \<^verbatim>\<open>QueuingMessageBus\<close>, and the independent
  \<^verbatim>\<open>SimpleMessageBus\<close>.

  Message classes, sender objects and callbacks are compared by the bus with \<^verbatim>\<open>==\<close>
  and \<^verbatim>\<open>in\<close> only, so each is modelled by an identity (a natural number). A message is
  an object with a class and a \<^verbatim>\<open>sender\<close> attribute; two distinct message objects of
  the same class and sender differ in \<open>ident\<close>.

  \<^verbatim>\<open>MessageBus.reset\<close> (logging of leftover subscriptions, then the end of the
  singleton instance) is not modelled; \<open>init_bus\<close>, \<open>init_qbus\<close> and \<open>init_simple\<close> are
  the states the constructors give.
\<close>

type_synonym mtype = nat
type_synonym inst = nat
type_synonym cb = nat

record message =
  msg_class :: mtype
  sender :: inst
  ident :: nat

datatype error = AssertionError | ValueError | TypeError | Exception | RuntimeError

text \<open>
  A method that can raise returns \<open>Inl (e, s)\<close> when it raises \<open>e\<close> leaving the object
  in state \<open>s\<close>, and \<open>Inr s\<close> when it returns normally in state \<open>s\<close>.
\<close>

type_synonym 's outcome = "(error \<times> 's) + 's"

subsection \<open>\<^verbatim>\<open>defaultdict\<close>\<close>

text \<open>
  Every registry is a \<^verbatim>\<open>defaultdict(list)\<close> (or \<^verbatim>\<open>defaultdict(deque)\<close>): a dictionary
  whose subscript \<^verbatim>\<open>d[k]\<close> on a missing key stores a fresh empty sequence under \<open>k\<close> and
  returns it. \<open>dd_get d k\<close> is the value of \<^verbatim>\<open>d[k]\<close> and \<open>dd_touch d k\<close> is the
  dictionary after the subscript was evaluated.
\<close>

definition dd_get :: "('k \<rightharpoonup> 'v list) \<Rightarrow> 'k \<Rightarrow> 'v list" where
  "dd_get d k = (case d k of None \<Rightarrow> [] | Some xs \<Rightarrow> xs)"

definition dd_touch :: "('k \<rightharpoonup> 'v list) \<Rightarrow> 'k \<Rightarrow> ('k \<rightharpoonup> 'v list)" where
  "dd_touch d k = (case d k of None \<Rightarrow> d(k \<mapsto> []) | Some xs \<Rightarrow> d)"

subsection \<open>Callbacks and the dispatch loop\<close>

text \<open>
  A callback is arbitrary code that runs while the bus is dispatching. Its effect on the
  state is given by an environment \<open>env\<close>: \<open>env c m s\<close> is the state after callback \<open>c\<close>
  ran on argument \<open>m\<close> in state \<open>s\<close>. Callbacks reach the registries through the methods
  of the bus, which change the lists in place, so the list object stored under a key is
  always the current entry of the dictionary. A callback returns: one that raises (the bus
  catches nothing, the exception ends the broadcast) or that runs forever is outside the
  model.

  \<^verbatim>\<open>for callback in lst: callback(message)\<close> over a Python list: the list iterator keeps
  a position and, at each step, reads the list as it is then; it stops when the position
  is not below the current length. \<open>for_live lst body i s\<close> runs the loop from position
  \<open>i\<close> in state \<open>s\<close>, where \<open>lst s\<close> reads the iterated list from the state. The loop
  need not end (a callback may append to the list it is called from): the result is
  \<open>None\<close> then.
\<close>

partial_function (option) for_live ::
  "('s \<Rightarrow> 'c list) \<Rightarrow> ('c \<Rightarrow> 's \<Rightarrow> 's) \<Rightarrow> nat \<Rightarrow> 's \<Rightarrow> 's option"
where
  "for_live lst body i s =
     (if i < length (lst s) then for_live lst body (Suc i) (body (lst s ! i) s)
      else Some s)"

declare for_live.simps [code]

section \<open>MessageBus\<close>

text \<open>
  \<open>calls\<close> is the trace of the callback invocations made by the bus, in order: the entry
  \<open>(c, m)\<close> stands for the call \<^verbatim>\<open>c(m)\<close>. It is not a field of the Python object.
\<close>

record bus =
  global_receivers :: "mtype \<rightharpoonup> cb list"
  local_receivers :: "(mtype \<times> inst) \<rightharpoonup> cb list"
  calls :: "(cb \<times> message) list"

definition init_bus :: bus where
  "init_bus = \<lparr>global_receivers = Map.empty, local_receivers = Map.empty, calls = []\<rparr>"

definition subscribe_globally :: "mtype \<Rightarrow> cb \<Rightarrow> 'a bus_scheme \<Rightarrow> 'a bus_scheme" where
  "subscribe_globally messagetype callback s =
     s\<lparr>global_receivers := (global_receivers s)
          (messagetype \<mapsto> dd_get (global_receivers s) messagetype @ [callback])\<rparr>"

definition subscribe_locally ::
  "mtype \<Rightarrow> inst \<Rightarrow> cb \<Rightarrow> 'a bus_scheme \<Rightarrow> 'a bus_scheme" where
  "subscribe_locally messagetype instance callback s =
     (let pair = (messagetype, instance)
      in s\<lparr>local_receivers := (local_receivers s)
             (pair \<mapsto> dd_get (local_receivers s) pair @ [callback])\<rparr>)"

text \<open>
  \<^verbatim>\<open>assert callback in self.global_receivers[messagetype]\<close> evaluates the subscript
  first; \<^verbatim>\<open>list.remove\<close> deletes the first occurrence. (Run with assertions
  disabled, the call would fail in \<^verbatim>\<open>list.remove\<close> with \<^verbatim>\<open>ValueError\<close> instead; the
  model is the program with its assertions.)
\<close>

definition unsubscribe_globally ::
  "mtype \<Rightarrow> cb \<Rightarrow> 'a bus_scheme \<Rightarrow> 'a bus_scheme outcome" where
  "unsubscribe_globally messagetype callback s =
     (let s1 = s\<lparr>global_receivers := dd_touch (global_receivers s) messagetype\<rparr>
      in if callback \<in> set (dd_get (global_receivers s1) messagetype)
         then Inr (s1\<lparr>global_receivers := (global_receivers s1)
                (messagetype \<mapsto> remove1 callback (dd_get (global_receivers s1) messagetype))\<rparr>)
         else Inl (AssertionError, s1))"

definition unsubscribe_locally ::
  "mtype \<Rightarrow> inst \<Rightarrow> cb \<Rightarrow> 'a bus_scheme \<Rightarrow> 'a bus_scheme outcome" where
  "unsubscribe_locally messagetype instance callback s =
     (let pair = (messagetype, instance);
          s1 = s\<lparr>local_receivers := dd_touch (local_receivers s) pair\<rparr>
      in if callback \<in> set (dd_get (local_receivers s1) pair)
         then Inr (s1\<lparr>local_receivers := (local_receivers s1)
                (pair \<mapsto> remove1 callback (dd_get (local_receivers s1) pair))\<rparr>)
         else Inl (AssertionError, s1))"

definition discard_globally ::
  "mtype \<Rightarrow> cb \<Rightarrow> 'a bus_scheme \<Rightarrow> 'a bus_scheme outcome" where
  "discard_globally messagetype callback s =
     (let s1 = s\<lparr>global_receivers := dd_touch (global_receivers s) messagetype\<rparr>
      in if callback \<in> set (dd_get (global_receivers s1) messagetype)
         then unsubscribe_globally messagetype callback s1
         else Inr s1)"

text \<open>
  \<^verbatim>\<open>pair in self.local_receivers\<close> tests whether the key is present and stores nothing;
  the subscript after \<^verbatim>\<open>and\<close> is evaluated only when the key is present.
\<close>

definition discard_locally ::
  "mtype \<Rightarrow> inst \<Rightarrow> cb \<Rightarrow> 'a bus_scheme \<Rightarrow> 'a bus_scheme outcome" where
  "discard_locally messagetype instance callback s =
     (let pair = (messagetype, instance)
      in if local_receivers s pair \<noteq> None \<and> callback \<in> set (dd_get (local_receivers s) pair)
         then unsubscribe_locally messagetype instance callback s
         else Inr s)"

text \<open>\<open>invoke env m c s\<close>: the call \<^verbatim>\<open>callback(message)\<close>, recorded in the trace.\<close>

definition invoke ::
  "(cb \<Rightarrow> message \<Rightarrow> 'a bus_scheme \<Rightarrow> 'a bus_scheme) \<Rightarrow>
   message \<Rightarrow> cb \<Rightarrow> 'a bus_scheme \<Rightarrow> 'a bus_scheme"
where
  "invoke env m c s = env c m (s\<lparr>calls := calls s @ [(c, m)]\<rparr>)"

text \<open>
  \<^verbatim>\<open>MessageBus.broadcast\<close>: one loop over \<^verbatim>\<open>self.global_receivers[messagetype]\<close>, then
  one loop over \<^verbatim>\<open>self.local_receivers[pair]\<close>; each subscript is evaluated once, when
  its loop starts.
\<close>

definition broadcast ::
  "(cb \<Rightarrow> message \<Rightarrow> 'a bus_scheme \<Rightarrow> 'a bus_scheme) \<Rightarrow>
   message \<Rightarrow> 'a bus_scheme \<Rightarrow> 'a bus_scheme option"
where
  "broadcast env m s =
     (let messagetype = msg_class m;
          s1 = s\<lparr>global_receivers := dd_touch (global_receivers s) messagetype\<rparr>
      in case for_live (\<lambda>s. dd_get (global_receivers s) messagetype) (invoke env m) 0 s1 of
           None \<Rightarrow> None
         | Some s2 \<Rightarrow>
             (let pair = (messagetype, sender m);
                  s3 = s2\<lparr>local_receivers := dd_touch (local_receivers s2) pair\<rparr>
              in for_live (\<lambda>s. dd_get (local_receivers s) pair) (invoke env m) 0 s3))"

section \<open>QueuingMessageBus\<close>

record qbus = bus +
  message_queue :: "mtype \<rightharpoonup> message list"

definition init_qbus :: qbus where
  "init_qbus = \<lparr>global_receivers = Map.empty, local_receivers = Map.empty, calls = [],
                message_queue = Map.empty\<rparr>"

text \<open>
  \<^verbatim>\<open>QueuingMessageBus.broadcast\<close>. In
  \<^verbatim>\<open>not len(self.global_receivers[messagetype]) and not len(self.local_receivers[pair])\<close>
  the second subscript is evaluated only when the global list is empty.
\<close>

definition broadcast_q ::
  "(cb \<Rightarrow> message \<Rightarrow> 'a qbus_scheme \<Rightarrow> 'a qbus_scheme) \<Rightarrow>
   message \<Rightarrow> 'a qbus_scheme \<Rightarrow> 'a qbus_scheme option"
where
  "broadcast_q env m s =
     (let messagetype = msg_class m;
          pair = (messagetype, sender m);
          s1 = s\<lparr>global_receivers := dd_touch (global_receivers s) messagetype\<rparr>
      in if length (dd_get (global_receivers s1) messagetype) = 0
         then (let s2 = s1\<lparr>local_receivers := dd_touch (local_receivers s1) pair\<rparr>
               in if length (dd_get (local_receivers s2) pair) = 0
                  then Some (s2\<lparr>message_queue := (message_queue s2)
                         (messagetype \<mapsto> dd_get (message_queue s2) messagetype @ [m])\<rparr>)
                  else broadcast env m s2)
         else broadcast env m s1)"

text \<open>
  The loop of \<^verbatim>\<open>QueuingMessageBus.subscribe_globally\<close>:
  \<^verbatim>\<open>while len(self.message_queue[messagetype]): self.broadcast(self.message_queue[messagetype].popleft())\<close>.
  The head is taken off the deque before it is broadcast. The loop does not end when
  every broadcast puts the message back.
\<close>

partial_function (option) replay_all ::
  "(cb \<Rightarrow> message \<Rightarrow> 'a qbus_scheme \<Rightarrow> 'a qbus_scheme) \<Rightarrow>
   mtype \<Rightarrow> 'a qbus_scheme \<Rightarrow> 'a qbus_scheme option"
where
  "replay_all env messagetype s =
     (let s1 = s\<lparr>message_queue := dd_touch (message_queue s) messagetype\<rparr>;
          q = dd_get (message_queue s1) messagetype
      in if length q \<noteq> 0
         then Option.bind
                (broadcast_q env (hd q) (s1\<lparr>message_queue := (message_queue s1)(messagetype \<mapsto> tl q)\<rparr>))
                (replay_all env messagetype)
         else Some s1)"

declare replay_all.simps [code]

definition subscribe_globally_q ::
  "(cb \<Rightarrow> message \<Rightarrow> 'a qbus_scheme \<Rightarrow> 'a qbus_scheme) \<Rightarrow>
   mtype \<Rightarrow> cb \<Rightarrow> 'a qbus_scheme \<Rightarrow> 'a qbus_scheme option"
where
  "subscribe_globally_q env messagetype callback s =
     replay_all env messagetype (subscribe_globally messagetype callback s)"

text \<open>
  The loop of \<^verbatim>\<open>QueuingMessageBus.subscribe_locally\<close>:
  \<^verbatim>\<open>
  for message in self.message_queue[messagetype]:
      if (message, message.sender) == (messagetype, instance):
          self.broadcast(message)
          self.message_queue[messagetype].remove(message)
  \<close>
  The tuples are compared item by item, so the test is
  \<^verbatim>\<open>message == messagetype and message.sender == instance\<close>. The class of the messages
  is not part of this module: \<open>eq_class m t\<close> is the value of \<^verbatim>\<open>m == t\<close> for a message
  object \<open>m\<close> and a class object \<open>t\<close>, a parameter of the model.

  A deque iterator raises \<^verbatim>\<open>RuntimeError\<close> at the step after the deque was changed. An
  iteration whose test is false changes nothing, so the loop walks the deque as it was at
  the start until the first message that passes the test. That message is broadcast and
  removed (\<^verbatim>\<open>deque.remove\<close> raises \<^verbatim>\<open>ValueError\<close> when the message is no longer in the
  deque), and the next step of the iterator raises.
\<close>

fun replay_matching ::
  "(message \<Rightarrow> mtype \<Rightarrow> bool) \<Rightarrow> (cb \<Rightarrow> message \<Rightarrow> 'a qbus_scheme \<Rightarrow> 'a qbus_scheme) \<Rightarrow>
   mtype \<Rightarrow> inst \<Rightarrow> message list \<Rightarrow> 'a qbus_scheme \<Rightarrow> 'a qbus_scheme outcome option"
where
  "replay_matching eq_class env messagetype instance [] s = Some (Inr s)"
| "replay_matching eq_class env messagetype instance (m # ms) s =
     (if eq_class m messagetype \<and> sender m = instance
      then (case broadcast_q env m s of
              None \<Rightarrow> None
            | Some s2 \<Rightarrow>
                (let s3 = s2\<lparr>message_queue := dd_touch (message_queue s2) messagetype\<rparr>
                 in if m \<in> set (dd_get (message_queue s3) messagetype)
                    then Some (Inl (RuntimeError,
                           s3\<lparr>message_queue := (message_queue s3)
                                (messagetype \<mapsto> remove1 m (dd_get (message_queue s3) messagetype))\<rparr>))
                    else Some (Inl (ValueError, s3))))
      else replay_matching eq_class env messagetype instance ms s)"

definition subscribe_locally_q ::
  "(message \<Rightarrow> mtype \<Rightarrow> bool) \<Rightarrow> (cb \<Rightarrow> message \<Rightarrow> 'a qbus_scheme \<Rightarrow> 'a qbus_scheme) \<Rightarrow>
   mtype \<Rightarrow> inst \<Rightarrow> cb \<Rightarrow> 'a qbus_scheme \<Rightarrow> 'a qbus_scheme outcome option"
where
  "subscribe_locally_q eq_class env messagetype instance callback s =
     (let s0 = subscribe_locally messagetype instance callback s;
          s1 = s0\<lparr>message_queue := dd_touch (message_queue s0) messagetype\<rparr>
      in replay_matching eq_class env messagetype instance
           (dd_get (message_queue s1) messagetype) s1)"

text \<open>
  Python compares objects by identity unless a class defines \<^verbatim>\<open>__eq__\<close>: a message
  object is not its class object.
\<close>

definition object_eq :: "message \<Rightarrow> mtype \<Rightarrow> bool" where
  "object_eq m t = False"

definition clear :: "mtype \<Rightarrow> 'a qbus_scheme \<Rightarrow> 'a qbus_scheme" where
  "clear messagetype s = s\<lparr>message_queue := (message_queue s)(messagetype \<mapsto> [])\<rparr>"

definition queue_len :: "mtype \<Rightarrow> 'a qbus_scheme \<Rightarrow> nat \<times> 'a qbus_scheme" where
  "queue_len messagetype s =
     (let s1 = s\<lparr>message_queue := dd_touch (message_queue s) messagetype\<rparr>
      in (length (dd_get (message_queue s1) messagetype), s1))"

section \<open>SimpleMessageBus\<close>

text \<open>
  Message types are strings here. \<open>message_types\<close> is the collection given to the
  constructor (a tuple in the class's docstring), read with \<^verbatim>\<open>in\<close> only. The payload
  \<^verbatim>\<open>*args, **kwargs\<close> is passed on unchanged and is a value of any type \<open>'p\<close>.
  \<open>calls_simple\<close> is the trace of the calls made, as \<open>calls\<close> above.
\<close>

record 'p simple_bus =
  message_types :: "string list"
  callbacks :: "string \<rightharpoonup> cb list"
  calls_simple :: "(cb \<times> 'p) list"

definition init_simple :: "string list \<Rightarrow> 'p simple_bus" where
  "init_simple types = \<lparr>message_types = types, callbacks = Map.empty, calls_simple = []\<rparr>"

definition subscribe :: "string \<Rightarrow> cb \<Rightarrow> 'p simple_bus \<Rightarrow> 'p simple_bus outcome" where
  "subscribe type callback s =
     (if type \<notin> set (message_types s) then Inl (TypeError, s)
      else (let s1 = s\<lparr>callbacks := dd_touch (callbacks s) type\<rparr>
            in if callback \<in> set (dd_get (callbacks s1) type) then Inl (Exception, s1)
               else Inr (s1\<lparr>callbacks := (callbacks s1)
                      (type \<mapsto> dd_get (callbacks s1) type @ [callback])\<rparr>)))"

text \<open>\<^verbatim>\<open>list.remove\<close> raises \<^verbatim>\<open>ValueError\<close> when the item is not in the list.\<close>

definition unsubscribe :: "string \<Rightarrow> cb \<Rightarrow> 'p simple_bus \<Rightarrow> 'p simple_bus outcome" where
  "unsubscribe type callback s =
     (let s1 = s\<lparr>callbacks := dd_touch (callbacks s) type\<rparr>
      in if callback \<in> set (dd_get (callbacks s1) type)
         then Inr (s1\<lparr>callbacks := (callbacks s1)
                (type \<mapsto> remove1 callback (dd_get (callbacks s1) type))\<rparr>)
         else Inl (ValueError, s1))"

definition discard :: "string \<Rightarrow> cb \<Rightarrow> 'p simple_bus \<Rightarrow> 'p simple_bus outcome" where
  "discard type callback s =
     (let s1 = s\<lparr>callbacks := dd_touch (callbacks s) type\<rparr>
      in if callback \<in> set (dd_get (callbacks s1) type)
         then Inr (s1\<lparr>callbacks := (callbacks s1)
                (type \<mapsto> remove1 callback (dd_get (callbacks s1) type))\<rparr>)
         else Inr s1)"

definition invoke_simple ::
  "(cb \<Rightarrow> 'p \<Rightarrow> 'p simple_bus \<Rightarrow> 'p simple_bus) \<Rightarrow> 'p \<Rightarrow> cb \<Rightarrow> 'p simple_bus \<Rightarrow> 'p simple_bus"
where
  "invoke_simple env args c s = env c args (s\<lparr>calls_simple := calls_simple s @ [(c, args)]\<rparr>)"

definition broadcast_simple ::
  "(cb \<Rightarrow> 'p \<Rightarrow> 'p simple_bus \<Rightarrow> 'p simple_bus) \<Rightarrow>
   string \<Rightarrow> 'p \<Rightarrow> 'p simple_bus \<Rightarrow> 'p simple_bus option"
where
  "broadcast_simple env type args s =
     (if type \<notin> set (message_types s) then Some s
      else (let s1 = s\<lparr>callbacks := dd_touch (callbacks s) type\<rparr>
            in for_live (\<lambda>s. dd_get (callbacks s) type) (invoke_simple env args) 0 s1))"

section \<open>Reading the state\<close>

text \<open>
  The callbacks registered under a key, the messages pending for a type: what
  \<^verbatim>\<open>d[k]\<close> returns. A key that is missing and a key bound to the empty sequence read
  alike, as they do for every method of the three buses.
\<close>

definition registered_globally :: "'a bus_scheme \<Rightarrow> mtype \<Rightarrow> cb list" where
  "registered_globally s t = dd_get (global_receivers s) t"

definition registered_locally :: "'a bus_scheme \<Rightarrow> mtype \<Rightarrow> inst \<Rightarrow> cb list" where
  "registered_locally s t i = dd_get (local_receivers s) (t, i)"

definition pending :: "'a qbus_scheme \<Rightarrow> mtype \<Rightarrow> message list" where
  "pending s t = dd_get (message_queue s) t"

definition registered :: "'p simple_bus \<Rightarrow> string \<Rightarrow> cb list" where
  "registered s t = dd_get (callbacks s) t"

text \<open>The calls made between state \<open>s\<close> and a later state \<open>s'\<close>.\<close>

definition new_calls :: "'a bus_scheme \<Rightarrow> 'a bus_scheme \<Rightarrow> (cb \<times> message) list" where
  "new_calls s s' = drop (length (calls s)) (calls s')"

text \<open>
  The calls one dispatch of \<open>x\<close> makes in a state whose registries are those of \<open>s\<close>:
  the global receivers of the class of \<open>x\<close>, then the local receivers of the class and
  sender of \<open>x\<close>.
\<close>

definition delivered :: "'a bus_scheme \<Rightarrow> message \<Rightarrow> (cb \<times> message) list" where
  "delivered s x =
     map (\<lambda>c. (c, x)) (registered_globally s (msg_class x)) @
     map (\<lambda>c. (c, x)) (registered_locally s (msg_class x) (sender x))"

subsection \<open>Callbacks that leave the bus alone\<close>

text \<open>
  \<open>quiet env\<close>: no callback subscribes, unsubscribes or broadcasts on the bus it is
  called from (it may change whatever else the state holds). \<open>quiet_q\<close> and
  \<open>quiet_simple\<close> say the same for the other two classes. \<open>no_effect\<close> is the
  environment of callbacks that change nothing.
\<close>

definition quiet :: "(cb \<Rightarrow> message \<Rightarrow> 'a bus_scheme \<Rightarrow> 'a bus_scheme) \<Rightarrow> bool" where
  "quiet env \<longleftrightarrow>
     (\<forall>c m s. global_receivers (env c m s) = global_receivers s \<and>
              local_receivers (env c m s) = local_receivers s \<and>
              calls (env c m s) = calls s)"

definition quiet_q :: "(cb \<Rightarrow> message \<Rightarrow> 'a qbus_scheme \<Rightarrow> 'a qbus_scheme) \<Rightarrow> bool" where
  "quiet_q env \<longleftrightarrow> quiet env \<and> (\<forall>c m s. message_queue (env c m s) = message_queue s)"

definition quiet_simple :: "(cb \<Rightarrow> 'p \<Rightarrow> 'p simple_bus \<Rightarrow> 'p simple_bus) \<Rightarrow> bool" where
  "quiet_simple env \<longleftrightarrow>
     (\<forall>c a s. callbacks (env c a s) = callbacks s \<and> calls_simple (env c a s) = calls_simple s)"

definition no_effect :: "cb \<Rightarrow> 'm \<Rightarrow> 's \<Rightarrow> 's" where
  "no_effect c m s = s"

subsection \<open>Example inputs\<close>

definition msgA :: message where
  "msgA = \<lparr>msg_class = 7, sender = 3, ident = 0\<rparr>"

text \<open>
  Callback \<open>5\<close> registered globally for class \<open>7\<close> and locally for sender \<open>3\<close>,
  callback \<open>9\<close> registered locally for sender \<open>4\<close>.
\<close>

definition bus_both :: bus where
  "bus_both = subscribe_locally 7 4 9 (subscribe_locally 7 3 5 (subscribe_globally 7 5 init_bus))"

text \<open>
  A \<^verbatim>\<open>SimpleMessageBus(('foo', 'bar'))\<close> with no subscription, and one where callback
  \<open>6\<close> is subscribed to \<^verbatim>\<open>'foo'\<close>.
\<close>

definition simple_fb :: "nat simple_bus" where
  "simple_fb = init_simple [''foo'', ''bar'']"

definition simple_sub :: "nat simple_bus" where
  "simple_sub = \<lparr>message_types = [''foo'', ''bar''], callbacks = [''foo'' \<mapsto> [6]],
                  calls_simple = []\<rparr>"

subsection \<open>Callbacks that use the bus\<close>


text \<open>
  Callback \<open>5\<close> as a one-shot handler: when called, it unsubscribes itself from the class
  of the message (\<open>unsub_self\<close>); as a handler that subscribes callback \<open>9\<close> to the
  class of the message (\<open>sub_more\<close>), or to another class (\<open>sub_other\<close>). On a
  \<^verbatim>\<open>SimpleMessageBus\<close>, callback \<open>6\<close> discards itself from \<^verbatim>\<open>'foo'\<close>
  (\<open>discard_self\<close>). The other callbacks do nothing.
\<close>

definition unsub_self :: "cb \<Rightarrow> message \<Rightarrow> 'a bus_scheme \<Rightarrow> 'a bus_scheme" where
  "unsub_self c m s =
     (if c = 5
      then (case unsubscribe_globally (msg_class m) 5 s of Inr s' \<Rightarrow> s' | Inl (e, s') \<Rightarrow> s')
      else s)"







subsection \<open>The replay the specification describes\<close>

text \<open>
  The reference the specification gives for the replay on subscribe: drain the matching
  pending entries into a temporary sequence, remove them from the live queue first, and
  only then dispatch each drained message. \<open>broadcast_each\<close> dispatches the messages of
  a sequence in order with \<^verbatim>\<open>QueuingMessageBus.broadcast\<close>. For
  \<open>ref_subscribe_globally\<close> every pending message of the type matches; for
  \<open>ref_subscribe_locally\<close> the pending messages of the type whose sender is the
  subscribed instance match, and the others stay queued in their order.
\<close>

fun broadcast_each ::
  "(cb \<Rightarrow> message \<Rightarrow> 'a qbus_scheme \<Rightarrow> 'a qbus_scheme) \<Rightarrow>
   message list \<Rightarrow> 'a qbus_scheme \<Rightarrow> 'a qbus_scheme option"
where
  "broadcast_each env [] s = Some s"
| "broadcast_each env (x # xs) s = Option.bind (broadcast_q env x s) (broadcast_each env xs)"

definition ref_subscribe_globally ::
  "(cb \<Rightarrow> message \<Rightarrow> 'a qbus_scheme \<Rightarrow> 'a qbus_scheme) \<Rightarrow>
   mtype \<Rightarrow> cb \<Rightarrow> 'a qbus_scheme \<Rightarrow> 'a qbus_scheme option"
where
  "ref_subscribe_globally env messagetype callback s =
     (let s0 = subscribe_globally messagetype callback s;
          drained = pending s0 messagetype;
          s1 = s0\<lparr>message_queue := (message_queue s0)(messagetype \<mapsto> [])\<rparr>
      in broadcast_each env drained s1)"

definition ref_subscribe_locally ::
  "(cb \<Rightarrow> message \<Rightarrow> 'a qbus_scheme \<Rightarrow> 'a qbus_scheme) \<Rightarrow>
   mtype \<Rightarrow> inst \<Rightarrow> cb \<Rightarrow> 'a qbus_scheme \<Rightarrow> 'a qbus_scheme option"
where
  "ref_subscribe_locally env messagetype instance callback s =
     (let s0 = subscribe_locally messagetype instance callback s;
          drained = filter (\<lambda>m. sender m = instance) (pending s0 messagetype);
          s1 = s0\<lparr>message_queue := (message_queue s0)
                 (messagetype \<mapsto> filter (\<lambda>m. sender m \<noteq> instance) (pending s0 messagetype))\<rparr>
      in broadcast_each env drained s1)"

text \<open>\<open>raised r\<close>: the exception a call ended with, if it did.\<close>

definition raised :: "'s outcome option \<Rightarrow> error option" where
  "raised r = (case r of Some (Inl (e, s)) \<Rightarrow> Some e | _ \<Rightarrow> None)"

text \<open>
  An equality under which a message does equal the class it is compared with, to follow
  the branch of the loop that the identity comparison never takes.
\<close>

definition always_eq :: "message \<Rightarrow> mtype \<Rightarrow> bool" where
  "always_eq m t = True"

text \<open>
  The \<^verbatim>\<open>QueuingMessageBus\<close> after \<open>msgA\<close> was broadcast on the empty bus: the message
  is pending, and the subscripts of \<^verbatim>\<open>broadcast\<close> have stored empty lists.
\<close>

definition qbus_pending :: qbus where
  "qbus_pending = \<lparr>global_receivers = [7 \<mapsto> []], local_receivers = [(7, 3) \<mapsto> []],
                    calls = [], message_queue = [7 \<mapsto> [msgA]]\<rparr>"

text \<open>
  Two messages of class \<open>7\<close> and sender \<open>3\<close> pending on a bus with no subscriber, and
  the state after \<^verbatim>\<open>subscribe_globally(7, 5)\<close> has replayed the first of them to the
  one-shot handler \<open>unsub_self\<close>.
\<close>

definition msgB :: message where
  "msgB = \<lparr>msg_class = 7, sender = 3, ident = 1\<rparr>"

definition qbus_two_pending :: qbus where
  "qbus_two_pending = \<lparr>global_receivers = [7 \<mapsto> []], local_receivers = [(7, 3) \<mapsto> []],
                        calls = [], message_queue = [7 \<mapsto> [msgA, msgB]]\<rparr>"

definition qbus_after_first :: qbus where
  "qbus_after_first = \<lparr>global_receivers = [7 \<mapsto> []], local_receivers = [(7, 3) \<mapsto> []],
                        calls = [(5, msgA)], message_queue = [7 \<mapsto> [msgB]]\<rparr>"

section \<open>Properties\<close>

subsection \<open>Dictionaries and loops\<close>

lemma dd_get_touch [simp]: "dd_get (dd_touch d k) k' = dd_get d k'"
  by (simp add: dd_get_def dd_touch_def split: option.splits)

lemma dd_get_upd [simp]: "dd_get (d(k \<mapsto> v)) k' = (if k' = k then v else dd_get d k')"
  by (simp add: dd_get_def)

lemma dd_get_empty [simp]: "dd_get Map.empty k = []"
  by (simp add: dd_get_def)

lemma dd_touch_present: "d k \<noteq> None \<Longrightarrow> dd_touch d k = d"
  by (auto simp add: dd_touch_def)

text \<open>
  A loop whose body never changes the list it runs over visits the elements the list had
  at the start, in order.
\<close>

lemma for_live_stable:
  assumes "\<And>c s. lst (body c s) = lst s"
  shows "for_live lst body i s = Some (foldl (\<lambda>s c. body c s) s (drop i (lst s)))"
proof (induction "length (lst s) - i" arbitrary: i s)
  case 0
  then show ?case by (subst for_live.simps) simp
next
  case (Suc n)
  then have lt: "i < length (lst s)" by simp
  have "n = length (lst (body (lst s ! i) s)) - Suc i"
    using Suc.hyps(2) assms by simp
  from Suc.hyps(1)[OF this] lt show ?case
    by (subst for_live.simps) (simp add: assms Cons_nth_drop_Suc[symmetric])
qed

lemma count_list_tag: "count_list (map (\<lambda>c. (c, m)) cs) (c, m) = count_list cs c"
  by (induction cs) simp_all

subsection \<open>Dispatch with quiet callbacks\<close>

lemma quiet_no_effect: "quiet no_effect"
  by (simp add: quiet_def no_effect_def)

lemma invoke_quiet:
  assumes "quiet env"
  shows "global_receivers (invoke env m c s) = global_receivers s"
    and "local_receivers (invoke env m c s) = local_receivers s"
    and "calls (invoke env m c s) = calls s @ [(c, m)]"
  using assms by (simp_all add: quiet_def invoke_def)

lemma foldl_invoke_quiet:
  assumes "quiet env"
  shows "global_receivers (foldl (\<lambda>s c. invoke env m c s) s cs) = global_receivers s"
    and "local_receivers (foldl (\<lambda>s c. invoke env m c s) s cs) = local_receivers s"
    and "calls (foldl (\<lambda>s c. invoke env m c s) s cs) = calls s @ map (\<lambda>c. (c, m)) cs"
  by (induction cs arbitrary: s) (simp_all add: invoke_quiet[OF assms])

lemma for_live_global:
  assumes "quiet env"
  shows "for_live (\<lambda>s. dd_get (global_receivers s) t) (invoke env m) i s =
         Some (foldl (\<lambda>s c. invoke env m c s) s (drop i (dd_get (global_receivers s) t)))"
  by (rule for_live_stable) (simp add: invoke_quiet[OF assms])

lemma for_live_local:
  assumes "quiet env"
  shows "for_live (\<lambda>s. dd_get (local_receivers s) p) (invoke env m) i s =
         Some (foldl (\<lambda>s c. invoke env m c s) s (drop i (dd_get (local_receivers s) p)))"
  by (rule for_live_stable) (simp add: invoke_quiet[OF assms])

lemma broadcast_quiet_eq:
  assumes "quiet env"
  shows "broadcast env m s =
     Some (foldl (\<lambda>s c. invoke env m c s)
            ((foldl (\<lambda>s c. invoke env m c s)
                (s\<lparr>global_receivers := dd_touch (global_receivers s) (msg_class m)\<rparr>)
                (dd_get (global_receivers s) (msg_class m)))
             \<lparr>local_receivers := dd_touch (local_receivers s) (msg_class m, sender m)\<rparr>)
            (dd_get (local_receivers s) (msg_class m, sender m)))"
  by (simp add: broadcast_def Let_def for_live_global[OF assms] for_live_local[OF assms]
        foldl_invoke_quiet[OF assms])

lemma broadcast_quiet:
  assumes "quiet env"
  shows "\<exists>s'. broadcast env m s = Some s' \<and>
     (\<forall>k. registered_globally s' k = registered_globally s k) \<and>
     (\<forall>k i. registered_locally s' k i = registered_locally s k i) \<and>
     calls s' = calls s @ delivered s m"
  by (simp add: broadcast_quiet_eq[OF assms] foldl_invoke_quiet[OF assms]
        registered_globally_def registered_locally_def delivered_def)

text \<open>
  C4. \<^verbatim>\<open>MessageBus.broadcast(m)\<close>, with callbacks that leave the bus alone, returns after
  calling the callbacks registered globally for the class of \<open>m\<close>, in registration
  order, and then the callbacks registered locally for the class and sender of \<open>m\<close>, in
  registration order. Nothing is deduplicated: a callback is called once for each of its
  registrations in the two lists. A callback registered locally for another sender of
  that class, and not in the two lists, is not called.
\<close>

theorem broadcast_order:
  assumes "quiet env"
  shows "\<exists>s'. broadcast env m s = Some s' \<and>
           calls s' = calls s
             @ map (\<lambda>c. (c, m)) (registered_globally s (msg_class m))
             @ map (\<lambda>c. (c, m)) (registered_locally s (msg_class m) (sender m)) \<and>
           (\<forall>c. count_list (new_calls s s') (c, m) =
                  count_list (registered_globally s (msg_class m)) c +
                  count_list (registered_locally s (msg_class m) (sender m)) c) \<and>
           (\<forall>c a. a \<noteq> sender m \<and> c \<in> set (registered_locally s (msg_class m) a) \<and>
                   c \<notin> set (registered_globally s (msg_class m)) \<and>
                   c \<notin> set (registered_locally s (msg_class m) (sender m))
                   \<longrightarrow> (c, m) \<notin> set (new_calls s s'))"
proof -
  from broadcast_quiet[OF assms, of m s] obtain s' where
    b: "broadcast env m s = Some s'" and c: "calls s' = calls s @ delivered s m"
    by blast
  have n: "new_calls s s' = delivered s m"
    by (simp add: new_calls_def c)
  show ?thesis
    using b c by (auto simp add: n count_list_tag delivered_def)
qed

theorem broadcast_order_witness:
  "quiet (no_effect :: cb \<Rightarrow> message \<Rightarrow> bus \<Rightarrow> bus) \<and>
   registered_globally bus_both 7 = [5] \<and> registered_locally bus_both 7 3 = [5] \<and>
   (4::nat) \<noteq> sender msgA \<and> 9 \<in> set (registered_locally bus_both 7 4) \<and>
   9 \<notin> set (registered_globally bus_both 7) \<and> 9 \<notin> set (registered_locally bus_both 7 3) \<and>
   (\<exists>s'. broadcast no_effect msgA bus_both = Some s' \<and>
      calls s' = [(5, msgA), (5, msgA)] \<and>
      count_list (new_calls bus_both s') (5, msgA) = 2 \<and>
      (9, msgA) \<notin> set (new_calls bus_both s'))"
proof -
  have q: "quiet (no_effect :: cb \<Rightarrow> message \<Rightarrow> bus \<Rightarrow> bus)" by (rule quiet_no_effect)
  have g: "registered_globally bus_both 7 = [5]"
    by (simp add: bus_both_def registered_globally_def subscribe_globally_def
        subscribe_locally_def init_bus_def)
  have l1: "registered_locally bus_both 7 3 = [5]"
    by (simp add: bus_both_def registered_locally_def subscribe_globally_def
        subscribe_locally_def init_bus_def)
  have l2: "registered_locally bus_both 7 4 = [9]"
    by (simp add: bus_both_def registered_locally_def subscribe_globally_def
        subscribe_locally_def init_bus_def)
  have c0: "calls bus_both = []"
    by (simp add: bus_both_def subscribe_globally_def subscribe_locally_def init_bus_def)
  have m: "msg_class msgA = 7" "sender msgA = 3" by (simp_all add: msgA_def)
  from broadcast_order[OF q, of msgA bus_both] obtain s' where
    b: "broadcast no_effect msgA bus_both = Some s'" and
    c: "calls s' = [(5, msgA), (5, msgA)]" and
    n: "\<forall>c. count_list (new_calls bus_both s') (c, msgA) =
          count_list (registered_globally bus_both 7) c +
          count_list (registered_locally bus_both 7 3) c" and
    o: "\<forall>c a. a \<noteq> 3 \<and> c \<in> set (registered_locally bus_both 7 a) \<and>
          c \<notin> set (registered_globally bus_both 7) \<and>
          c \<notin> set (registered_locally bus_both 7 3)
          \<longrightarrow> (c, msgA) \<notin> set (new_calls bus_both s')"
    unfolding m g l1 c0 by auto
  have "count_list (new_calls bus_both s') (5, msgA) = 2"
    using n g l1 by simp
  moreover have "(9, msgA) \<notin> set (new_calls bus_both s')"
    using o[rule_format, of 4 9] g l1 l2 by simp
  ultimately show ?thesis
    using q g l1 l2 m b c by simp
qed

subsection \<open>The pending queue\<close>

lemma foldl_invoke_queue:
  assumes "quiet_q env"
  shows "message_queue (foldl (\<lambda>s c. invoke env m c s) s cs) = message_queue s"
  using assms by (induction cs arbitrary: s) (simp_all add: quiet_q_def invoke_def)

lemma queue_len_fst: "fst (queue_len t s) = length (pending s t)"
  by (simp add: queue_len_def Let_def pending_def)

text \<open>
  \<^verbatim>\<open>QueuingMessageBus.broadcast\<close> with quiet callbacks: the message is dispatched when
  it has a receiver, and appended to the queue of its class when it has none.
\<close>

lemma broadcast_q_quiet:
  assumes "quiet_q env"
  shows "\<exists>s'. broadcast_q env x s = Some s' \<and>
     (\<forall>k. registered_globally s' k = registered_globally s k) \<and>
     (\<forall>k i. registered_locally s' k i = registered_locally s k i) \<and>
     calls s' = calls s @ delivered s x \<and>
     (\<forall>k. pending s' k =
        (if k = msg_class x \<and> delivered s x = [] then pending s k @ [x] else pending s k))"
proof -
  have q: "quiet env" using assms by (simp add: quiet_q_def)
  show ?thesis
    by (simp add: broadcast_q_def Let_def broadcast_quiet_eq[OF q] foldl_invoke_queue[OF assms]
        foldl_invoke_quiet[OF q] registered_globally_def registered_locally_def pending_def
        delivered_def)
qed

lemma delivered_cong:
  assumes "\<forall>k. registered_globally s' k = registered_globally s k"
      and "\<forall>k i. registered_locally s' k i = registered_locally s k i"
  shows "delivered s' = delivered s"
  using assms by (auto simp add: delivered_def fun_eq_iff)

lemma delivered_nonempty:
  "registered_globally s (msg_class x) \<noteq> [] \<Longrightarrow> delivered s x \<noteq> []"
  by (simp add: delivered_def)

lemma snd_delivered: "e \<in> set (concat (map (delivered s) xs)) \<Longrightarrow> snd e \<in> set xs"
  by (auto simp add: delivered_def)

text \<open>
  The \<^verbatim>\<open>while\<close> loop of \<^verbatim>\<open>QueuingMessageBus.subscribe_globally\<close> ends when the class
  has a global receiver: it dispatches the pending messages of the class from the oldest
  to the newest and leaves the queue of the class empty. A pending message of another
  class that has no receiver moves to the queue of its own class.
\<close>

lemma replay_all_closed:
  assumes "quiet_q env" and "registered_globally s t \<noteq> []"
  shows "\<exists>s'. replay_all env t s = Some s' \<and>
     (\<forall>k. registered_globally s' k = registered_globally s k) \<and>
     (\<forall>k i. registered_locally s' k i = registered_locally s k i) \<and>
     calls s' = calls s @ concat (map (delivered s) (pending s t)) \<and>
     (\<forall>k. pending s' k =
        (if k = t then []
         else pending s k @ filter (\<lambda>x. msg_class x = k \<and> delivered s x = []) (pending s t)))"
  using assms(2)
proof (induction "length (pending s t)" arbitrary: s)
  case 0
  then show ?case
    by (subst replay_all.simps) (simp add: Let_def pending_def registered_globally_def
        registered_locally_def)
next
  case (Suc n)
  then obtain x q where xq: "pending s t = x # q"
    by (cases "pending s t") simp_all
  define s1 where "s1 = s\<lparr>message_queue := (dd_touch (message_queue s) t)(t \<mapsto> q)\<rparr>"
  have g1: "\<forall>k. registered_globally s1 k = registered_globally s k"
    and l1: "\<forall>k i. registered_locally s1 k i = registered_locally s k i"
    and c1: "calls s1 = calls s"
    and p1: "\<forall>k. pending s1 k = (if k = t then q else pending s k)"
    by (simp_all add: s1_def registered_globally_def registered_locally_def pending_def)
  have d1: "delivered s1 = delivered s" by (rule delivered_cong[OF g1 l1])
  from broadcast_q_quiet[OF assms(1), of x s1] obtain s2 where
    b: "broadcast_q env x s1 = Some s2" and
    g2: "\<forall>k. registered_globally s2 k = registered_globally s1 k" and
    l2: "\<forall>k i. registered_locally s2 k i = registered_locally s1 k i" and
    c2: "calls s2 = calls s1 @ delivered s1 x" and
    p2: "\<forall>k. pending s2 k =
        (if k = msg_class x \<and> delivered s1 x = [] then pending s1 k @ [x] else pending s1 k)"
    by blast
  have d2: "delivered s2 = delivered s" using delivered_cong[OF g2 l2] d1 by simp
  have nt: "msg_class x = t \<Longrightarrow> delivered s x \<noteq> []"
    using Suc.prems delivered_nonempty by blast
  have p2t: "pending s2 t = q" using p2 p1 nt d1 by auto
  have ne2: "registered_globally s2 t \<noteq> []" using Suc.prems g1 g2 by simp
  have len: "n = length (pending s2 t)" using Suc.hyps(2) xq p2t by simp
  from Suc.hyps(1)[OF len ne2] obtain s' where
    r: "replay_all env t s2 = Some s'" and
    g3: "\<forall>k. registered_globally s' k = registered_globally s2 k" and
    l3: "\<forall>k i. registered_locally s' k i = registered_locally s2 k i" and
    c3: "calls s' = calls s2 @ concat (map (delivered s2) (pending s2 t))" and
    p3: "\<forall>k. pending s' k =
        (if k = t then []
         else pending s2 k @ filter (\<lambda>x. msg_class x = k \<and> delivered s2 x = []) (pending s2 t))"
    by blast
  have step: "replay_all env t s = Some s'"
    using xq b r by (subst replay_all.simps) (simp add: Let_def pending_def s1_def)
  show ?case
    using step g1 g2 g3 l1 l2 l3 c1 c2 c3 p1 p2 p3 xq d1 d2 p2t by auto
qed

lemma registered_subscribe_globally:
  "registered_globally (subscribe_globally t c s) k =
     (if k = t then registered_globally s t @ [c] else registered_globally s k)"
  "registered_locally (subscribe_globally t c s) k i = registered_locally s k i"
  "calls (subscribe_globally t c s) = calls s"
  by (simp_all add: subscribe_globally_def registered_globally_def registered_locally_def)

lemma count_concat_each:
  assumes "\<forall>y \<in> set ys. count_list (f y) e = (if y = x then 1 else 0)"
  shows "count_list (concat (map f ys)) e = count_list ys x"
  using assms by (induction ys) (simp_all add: count_list_append)

lemma delivered_after_subscribe:
  assumes "registered_globally s t = []" and "msg_class x = t"
  shows "delivered (subscribe_globally t callback s) x =
           (callback, x) # map (\<lambda>c. (c, x)) (registered_locally s t (sender x))"
  using assms by (simp add: delivered_def registered_subscribe_globally)

lemma qbus_pending_regs:
  "registered_globally qbus_pending k = []" "registered_locally qbus_pending k i = []"
  "pending qbus_pending 7 = [msgA]" "calls qbus_pending = []"
  by (simp_all add: qbus_pending_def registered_globally_def registered_locally_def
      pending_def dd_get_def)

lemma init_qbus_regs:
  "registered_globally init_qbus k = []" "registered_locally init_qbus k i = []"
  "pending init_qbus k = []" "calls init_qbus = []"
  by (simp_all add: init_qbus_def registered_globally_def registered_locally_def pending_def)

lemma msgAB: "msg_class msgA = 7" "sender msgA = 3" "msg_class msgB = 7" "sender msgB = 3"
  "msgA \<noteq> msgB"
  by (simp_all add: msgA_def msgB_def)

text \<open>
  C1. With quiet callbacks, a message \<open>m\<close> broadcast on a \<^verbatim>\<open>QueuingMessageBus\<close> while
  no callback is registered globally for its class and none locally for its class and
  sender is appended to the pending queue of its class, no callback is called, the other
  queues are as before, and \<^verbatim>\<open>queue_len\<close> of the class grows by one. A
  \<^verbatim>\<open>subscribe_globally\<close> for that class that follows returns, and the calls it makes
  are exactly these: for each message that was pending for the class before \<open>m\<close>, from
  the oldest to the newest, the calls of one dispatch of that message with the new
  callback registered, and then one call of the new callback on \<open>m\<close>. The dispatch of a
  pending message \<open>x\<close> of the class calls the new callback on \<open>x\<close> and then the local
  receivers of the sender of \<open>x\<close>. So when the queue of the class holds messages of the
  class only and the new callback is not a local receiver of their senders, the new
  callback is called on every message as many times as the message is pending, and on
  \<open>m\<close> exactly once when \<open>m\<close> was not pending already. Afterwards \<^verbatim>\<open>queue_len\<close> of the
  class is \<open>0\<close> and the new callback is the one global receiver of the class.
\<close>

theorem queued_then_replayed:
  assumes "quiet_q env"
      and "registered_globally s (msg_class m) = []"
      and "registered_locally s (msg_class m) (sender m) = []"
  shows "\<exists>s1. broadcast_q env m s = Some s1 \<and> calls s1 = calls s \<and>
           pending s1 (msg_class m) = pending s (msg_class m) @ [m] \<and>
           (\<forall>k. k \<noteq> msg_class m \<longrightarrow> pending s1 k = pending s k) \<and>
           fst (queue_len (msg_class m) s1) = fst (queue_len (msg_class m) s) + 1 \<and>
           (\<exists>s2. subscribe_globally_q env (msg_class m) callback s1 = Some s2 \<and>
              calls s2 = calls s
                @ concat (map (delivered (subscribe_globally (msg_class m) callback s))
                           (pending s (msg_class m)))
                @ [(callback, m)] \<and>
              (\<forall>x. msg_class x = msg_class m \<longrightarrow>
                 delivered (subscribe_globally (msg_class m) callback s) x =
                   (callback, x) # map (\<lambda>c. (c, x)) (registered_locally s (msg_class m) (sender x))) \<and>
              ((\<forall>x \<in> set (pending s (msg_class m)). msg_class x = msg_class m \<and>
                   callback \<notin> set (registered_locally s (msg_class m) (sender x))) \<longrightarrow>
                 (\<forall>x. count_list (new_calls s s2) (callback, x) =
                        count_list (pending s (msg_class m) @ [m]) x)) \<and>
              (m \<notin> set (pending s (msg_class m)) \<longrightarrow>
                 count_list (new_calls s s2) (callback, m) = 1) \<and>
              fst (queue_len (msg_class m) s2) = 0 \<and>
              registered_globally s2 (msg_class m) = [callback])"
proof -
  let ?t = "msg_class m"
  define s0 where "s0 = subscribe_globally ?t callback s"
  have d0: "delivered s m = []" using assms(2,3) by (simp add: delivered_def)
  from broadcast_q_quiet[OF assms(1), of m s] obtain s1 where
    b: "broadcast_q env m s = Some s1" and
    g1: "\<forall>k. registered_globally s1 k = registered_globally s k" and
    l1: "\<forall>k i. registered_locally s1 k i = registered_locally s k i" and
    c1: "calls s1 = calls s" and
    p1: "\<forall>k. pending s1 k = (if k = ?t then pending s k @ [m] else pending s k)"
    using d0 by auto
  define s1' where "s1' = subscribe_globally ?t callback s1"
  have g1': "\<forall>k. registered_globally s1' k = registered_globally s0 k"
    using g1 by (simp add: s1'_def s0_def registered_subscribe_globally)
  have l1': "\<forall>k i. registered_locally s1' k i = registered_locally s0 k i"
    using l1 by (simp add: s1'_def s0_def registered_subscribe_globally)
  have dd: "delivered s1' = delivered s0" by (rule delivered_cong[OF g1' l1'])
  have gt: "registered_globally s1' ?t = [callback]"
    using g1 assms(2) by (simp add: s1'_def registered_subscribe_globally)
  have c1': "calls s1' = calls s" using c1 by (simp add: s1'_def subscribe_globally_def)
  have p1': "pending s1' ?t = pending s ?t @ [m]"
    using p1 by (simp add: s1'_def subscribe_globally_def pending_def)
  have del: "\<forall>x. msg_class x = ?t \<longrightarrow>
      delivered s0 x = (callback, x) # map (\<lambda>c. (c, x)) (registered_locally s ?t (sender x))"
    unfolding s0_def using delivered_after_subscribe[OF assms(2)] by blast
  have dm: "delivered s0 m = [(callback, m)]" using del assms(3) by simp
  have ne: "registered_globally s1' ?t \<noteq> []" using gt by simp
  from replay_all_closed[OF assms(1) ne] obtain s2 where
    r: "replay_all env ?t s1' = Some s2" and
    g2: "\<forall>k. registered_globally s2 k = registered_globally s1' k" and
    c2: "calls s2 = calls s1' @ concat (map (delivered s1') (pending s1' ?t))" and
    p2: "\<forall>k. pending s2 k =
        (if k = ?t then []
         else pending s1' k @ filter (\<lambda>x. msg_class x = k \<and> delivered s1' x = []) (pending s1' ?t))"
    by blast
  have c2': "calls s2 = calls s @ concat (map (delivered s0) (pending s ?t)) @ [(callback, m)]"
    using c2 c1' p1' dm dd by simp
  have nc: "new_calls s s2 = concat (map (delivered s0) (pending s ?t @ [m]))"
    using c2' dm by (simp add: new_calls_def)
  have cntall: "(\<forall>x \<in> set (pending s ?t). msg_class x = ?t \<and>
        callback \<notin> set (registered_locally s ?t (sender x))) \<longrightarrow>
      (\<forall>x. count_list (new_calls s s2) (callback, x) = count_list (pending s ?t @ [m]) x)"
  proof (intro impI allI)
    fix x
    assume inv: "\<forall>x \<in> set (pending s ?t). msg_class x = ?t \<and>
        callback \<notin> set (registered_locally s ?t (sender x))"
    have "\<forall>y \<in> set (pending s ?t @ [m]).
        count_list (delivered s0 y) (callback, x) = (if y = x then 1 else 0)"
    proof
      fix y assume y: "y \<in> set (pending s ?t @ [m])"
      then have cy: "msg_class y = ?t" and ly: "callback \<notin> set (registered_locally s ?t (sender y))"
        using inv assms(3) by auto
      have "delivered s0 y = (callback, y) # map (\<lambda>c. (c, y)) (registered_locally s ?t (sender y))"
        using del cy by simp
      moreover have "count_list (map (\<lambda>c. (c, y)) (registered_locally s ?t (sender y))) (callback, x) = 0"
        using ly by (auto simp add: count_list_0_iff)
      ultimately show "count_list (delivered s0 y) (callback, x) = (if y = x then 1 else 0)"
        by auto
    qed
    from count_concat_each[OF this] show
      "count_list (new_calls s s2) (callback, x) = count_list (pending s ?t @ [m]) x"
      by (simp only: nc)
  qed
  have cnt: "m \<notin> set (pending s ?t) \<longrightarrow> count_list (new_calls s s2) (callback, m) = 1"
  proof
    assume "m \<notin> set (pending s ?t)"
    then have "(callback, m) \<notin> set (concat (map (delivered s0) (pending s ?t)))"
      using snd_delivered[of "(callback, m)" s0 "pending s ?t"] by auto
    then have "count_list (concat (map (delivered s0) (pending s ?t))) (callback, m) = 0"
      by (simp add: count_list_0_iff)
    then show "count_list (new_calls s s2) (callback, m) = 1"
      by (simp add: nc dm count_list_append)
  qed
  have q0: "fst (queue_len ?t s2) = 0" using p2 by (simp add: queue_len_fst)
  have g2t: "registered_globally s2 ?t = [callback]" using g2 gt by simp
  have sub: "subscribe_globally_q env ?t callback s1 = Some s2"
    using r by (simp add: subscribe_globally_q_def s1'_def)
  have p1t: "pending s1 ?t = pending s ?t @ [m]" using p1 by simp
  have p1o: "\<forall>k. k \<noteq> ?t \<longrightarrow> pending s1 k = pending s k" using p1 by simp
  have ql: "fst (queue_len ?t s1) = fst (queue_len ?t s) + 1"
    using p1t by (simp add: queue_len_fst)
  have inner: "\<exists>s2. subscribe_globally_q env ?t callback s1 = Some s2 \<and>
      calls s2 = calls s @ concat (map (delivered s0) (pending s ?t)) @ [(callback, m)] \<and>
      (\<forall>x. msg_class x = ?t \<longrightarrow>
         delivered s0 x = (callback, x) # map (\<lambda>c. (c, x)) (registered_locally s ?t (sender x))) \<and>
      ((\<forall>x \<in> set (pending s ?t). msg_class x = ?t \<and>
           callback \<notin> set (registered_locally s ?t (sender x))) \<longrightarrow>
         (\<forall>x. count_list (new_calls s s2) (callback, x) = count_list (pending s ?t @ [m]) x)) \<and>
      (m \<notin> set (pending s ?t) \<longrightarrow> count_list (new_calls s s2) (callback, m) = 1) \<and>
      fst (queue_len ?t s2) = 0 \<and> registered_globally s2 ?t = [callback]"
    using sub c2' del cntall cnt q0 g2t by blast
  show ?thesis
    using b c1 p1t p1o ql inner unfolding s0_def by blast
qed

text \<open>
  Scenario A of the specification (a message broadcast on an empty bus is queued, and the
  first global subscriber of its class receives it once), and the same with a message
  pending before: both messages are delivered, the older one first.
\<close>

theorem queued_then_replayed_witness:
  "quiet_q (no_effect :: cb \<Rightarrow> message \<Rightarrow> qbus \<Rightarrow> qbus) \<and>
   registered_globally init_qbus (msg_class msgA) = [] \<and>
   registered_locally init_qbus (msg_class msgA) (sender msgA) = [] \<and>
   msgA \<notin> set (pending init_qbus 7) \<and>
   (\<exists>s1. broadcast_q no_effect msgA init_qbus = Some s1 \<and>
      fst (queue_len 7 s1) = 1 \<and>
      (\<exists>s2. subscribe_globally_q no_effect 7 5 s1 = Some s2 \<and>
         calls s2 = [(5, msgA)] \<and> count_list (new_calls init_qbus s2) (5, msgA) = 1 \<and>
         fst (queue_len 7 s2) = 0)) \<and>
   registered_globally qbus_pending (msg_class msgB) = [] \<and>
   registered_locally qbus_pending (msg_class msgB) (sender msgB) = [] \<and>
   pending qbus_pending 7 = [msgA] \<and> msg_class msgA = msg_class msgB \<and>
   5 \<notin> set (registered_locally qbus_pending 7 (sender msgA)) \<and>
   msgB \<notin> set (pending qbus_pending 7) \<and>
   (\<exists>s1. broadcast_q no_effect msgB qbus_pending = Some s1 \<and>
      fst (queue_len 7 s1) = 2 \<and>
      (\<exists>s2. subscribe_globally_q no_effect 7 5 s1 = Some s2 \<and>
         calls s2 = [(5, msgA), (5, msgB)] \<and>
         count_list (new_calls qbus_pending s2) (5, msgA) = 1 \<and>
         count_list (new_calls qbus_pending s2) (5, msgB) = 1 \<and>
         fst (queue_len 7 s2) = 0))"
proof -
  have q: "quiet_q (no_effect :: cb \<Rightarrow> message \<Rightarrow> qbus \<Rightarrow> qbus)"
    by (simp add: quiet_q_def quiet_def no_effect_def)
  have a2: "registered_globally init_qbus (msg_class msgA) = []"
    and a3: "registered_locally init_qbus (msg_class msgA) (sender msgA) = []"
    by (simp_all add: init_qbus_regs)
  have b2: "registered_globally qbus_pending (msg_class msgB) = []"
    and b3: "registered_locally qbus_pending (msg_class msgB) (sender msgB) = []"
    by (simp_all add: qbus_pending_regs)
  from queued_then_replayed[OF q a2 a3, of 5] obtain s1 s2 where
    ab: "broadcast_q no_effect msgA init_qbus = Some s1" and
    al: "fst (queue_len 7 s1) = fst (queue_len 7 init_qbus) + 1" and
    ar: "subscribe_globally_q no_effect 7 5 s1 = Some s2" and
    ac: "calls s2 = calls init_qbus
           @ concat (map (delivered (subscribe_globally 7 5 init_qbus)) (pending init_qbus 7))
           @ [(5, msgA)]" and
    an: "msgA \<notin> set (pending init_qbus 7) \<longrightarrow> count_list (new_calls init_qbus s2) (5, msgA) = 1" and
    a0: "fst (queue_len 7 s2) = 0"
    unfolding msgAB by blast
  have A: "\<exists>s1. broadcast_q no_effect msgA init_qbus = Some s1 \<and>
      fst (queue_len 7 s1) = 1 \<and>
      (\<exists>s2. subscribe_globally_q no_effect 7 5 s1 = Some s2 \<and>
         calls s2 = [(5, msgA)] \<and> count_list (new_calls init_qbus s2) (5, msgA) = 1 \<and>
         fst (queue_len 7 s2) = 0)"
    using ab al ar ac an a0 by (auto simp add: init_qbus_regs queue_len_fst)
  from queued_then_replayed[OF q b2 b3, of 5] obtain t1 t2 where
    bb: "broadcast_q no_effect msgB qbus_pending = Some t1" and
    bl: "fst (queue_len 7 t1) = fst (queue_len 7 qbus_pending) + 1" and
    br: "subscribe_globally_q no_effect 7 5 t1 = Some t2" and
    bc: "calls t2 = calls qbus_pending
           @ concat (map (delivered (subscribe_globally 7 5 qbus_pending)) (pending qbus_pending 7))
           @ [(5, msgB)]" and
    bd: "\<forall>x. msg_class x = 7 \<longrightarrow>
           delivered (subscribe_globally 7 5 qbus_pending) x =
             (5, x) # map (\<lambda>c. (c, x)) (registered_locally qbus_pending 7 (sender x))" and
    bn: "(\<forall>x \<in> set (pending qbus_pending 7). msg_class x = 7 \<and>
             5 \<notin> set (registered_locally qbus_pending 7 (sender x))) \<longrightarrow>
           (\<forall>x. count_list (new_calls qbus_pending t2) (5, x) =
                  count_list (pending qbus_pending 7 @ [msgB]) x)" and
    b0: "fst (queue_len 7 t2) = 0"
    unfolding msgAB by blast
  have bdA: "delivered (subscribe_globally 7 5 qbus_pending) msgA = [(5, msgA)]"
    using bd[rule_format, of msgA] by (simp add: msgAB qbus_pending_regs)
  have bc': "calls t2 = [(5, msgA), (5, msgB)]"
    using bc bdA by (simp add: qbus_pending_regs)
  have bcnt: "\<forall>x. count_list (new_calls qbus_pending t2) (5, x) = count_list [msgA, msgB] x"
    using bn by (simp add: qbus_pending_regs msgAB)
  have B: "\<exists>s1. broadcast_q no_effect msgB qbus_pending = Some s1 \<and>
      fst (queue_len 7 s1) = 2 \<and>
      (\<exists>s2. subscribe_globally_q no_effect 7 5 s1 = Some s2 \<and>
         calls s2 = [(5, msgA), (5, msgB)] \<and>
         count_list (new_calls qbus_pending s2) (5, msgA) = 1 \<and>
         count_list (new_calls qbus_pending s2) (5, msgB) = 1 \<and>
         fst (queue_len 7 s2) = 0)"
    using bb bl br bc' bcnt b0 msgAB(5) by (auto simp add: qbus_pending_regs queue_len_fst)
  show ?thesis
    using q A B msgAB(5)[symmetric] by (simp add: init_qbus_regs qbus_pending_regs msgAB)
qed

subsection \<open>Removing a subscription\<close>

lemma dd_touch_member: "x \<in> set (dd_get d k) \<Longrightarrow> dd_touch d k = d"
  by (cases "d k") (simp_all add: dd_get_def dd_touch_def)

lemma dd_member_key: "x \<in> set (dd_get d k) \<Longrightarrow> d k \<noteq> None"
  by (cases "d k") (simp_all add: dd_get_def)

lemma unsubscribe_globally_missing:
  "callback \<notin> set (registered_globally s t) \<Longrightarrow>
   unsubscribe_globally t callback s =
     Inl (AssertionError, s\<lparr>global_receivers := dd_touch (global_receivers s) t\<rparr>)"
  by (simp add: unsubscribe_globally_def Let_def registered_globally_def)

lemma unsubscribe_globally_present:
  "callback \<in> set (registered_globally s t) \<Longrightarrow>
   unsubscribe_globally t callback s =
     Inr (s\<lparr>global_receivers :=
            (global_receivers s)(t \<mapsto> remove1 callback (registered_globally s t))\<rparr>)"
  by (simp add: unsubscribe_globally_def Let_def registered_globally_def dd_touch_member)

lemma unsubscribe_locally_missing:
  "callback \<notin> set (registered_locally s t i) \<Longrightarrow>
   unsubscribe_locally t i callback s =
     Inl (AssertionError, s\<lparr>local_receivers := dd_touch (local_receivers s) (t, i)\<rparr>)"
  by (simp add: unsubscribe_locally_def Let_def registered_locally_def)

lemma unsubscribe_locally_present:
  "callback \<in> set (registered_locally s t i) \<Longrightarrow>
   unsubscribe_locally t i callback s =
     Inr (s\<lparr>local_receivers :=
            (local_receivers s)((t, i) \<mapsto> remove1 callback (registered_locally s t i))\<rparr>)"
  by (simp add: unsubscribe_locally_def Let_def registered_locally_def dd_touch_member)

lemma unsubscribe_missing:
  "callback \<notin> set (registered b ty) \<Longrightarrow>
   unsubscribe ty callback b = Inl (ValueError, b\<lparr>callbacks := dd_touch (callbacks b) ty\<rparr>)"
  by (simp add: unsubscribe_def Let_def registered_def)

lemma unsubscribe_present:
  "callback \<in> set (registered b ty) \<Longrightarrow>
   unsubscribe ty callback b =
     Inr (b\<lparr>callbacks := (callbacks b)(ty \<mapsto> remove1 callback (registered b ty))\<rparr>)"
  by (simp add: unsubscribe_def Let_def registered_def dd_touch_member)

lemma discard_globally_missing:
  "callback \<notin> set (registered_globally s t) \<Longrightarrow>
   discard_globally t callback s =
     Inr (s\<lparr>global_receivers := dd_touch (global_receivers s) t\<rparr>)"
  by (simp add: discard_globally_def Let_def registered_globally_def)

lemma discard_globally_present:
  "callback \<in> set (registered_globally s t) \<Longrightarrow>
   discard_globally t callback s = unsubscribe_globally t callback s"
  by (simp add: discard_globally_def Let_def registered_globally_def dd_touch_member)

lemma discard_locally_missing:
  "callback \<notin> set (registered_locally s t i) \<Longrightarrow> discard_locally t i callback s = Inr s"
  by (simp add: discard_locally_def Let_def registered_locally_def)

lemma discard_locally_present:
  "callback \<in> set (registered_locally s t i) \<Longrightarrow>
   discard_locally t i callback s = unsubscribe_locally t i callback s"
  by (simp add: discard_locally_def Let_def registered_locally_def dd_member_key)

lemma discard_missing:
  "callback \<notin> set (registered b ty) \<Longrightarrow>
   discard ty callback b = Inr (b\<lparr>callbacks := dd_touch (callbacks b) ty\<rparr>)"
  by (simp add: discard_def Let_def registered_def)

lemma discard_present:
  "callback \<in> set (registered b ty) \<Longrightarrow> discard ty callback b = unsubscribe ty callback b"
  by (simp add: discard_def unsubscribe_def Let_def registered_def)

lemma bus_both_regs:
  "registered_globally bus_both 7 = [5]" "registered_locally bus_both 7 3 = [5]"
  "registered_locally bus_both 7 4 = [9]" "calls bus_both = []"
  by (simp_all add: bus_both_def registered_globally_def registered_locally_def
      subscribe_globally_def subscribe_locally_def init_bus_def)

lemma init_bus_regs:
  "registered_globally init_bus t = []" "registered_locally init_bus t i = []"
  by (simp_all add: registered_globally_def registered_locally_def init_bus_def)

lemma simple_regs:
  "registered simple_fb ty = []" "registered simple_sub ''foo'' = [6]"
  by (simp_all add: registered_def simple_fb_def simple_sub_def init_simple_def)

text \<open>
  C6. When the callback is not registered under the key, \<^verbatim>\<open>unsubscribe_globally\<close> and
  \<^verbatim>\<open>unsubscribe_locally\<close> raise \<^verbatim>\<open>AssertionError\<close> and
  \<^verbatim>\<open>SimpleMessageBus.unsubscribe\<close> raises \<^verbatim>\<open>ValueError\<close>. When it is registered, the
  call returns normally and has removed the first registration of the callback under the
  key; every other key, the other registry, the trace and the rest of the object are as
  before.
\<close>

theorem unsubscribe_checked:
  "(callback \<notin> set (registered_globally s t) \<longrightarrow>
      (\<exists>s'. unsubscribe_globally t callback s = Inl (AssertionError, s'))) \<and>
   (callback \<in> set (registered_globally s t) \<longrightarrow>
      (\<exists>s'. unsubscribe_globally t callback s = Inr s' \<and>
         registered_globally s' t = remove1 callback (registered_globally s t) \<and>
         (\<forall>k. k \<noteq> t \<longrightarrow> registered_globally s' k = registered_globally s k) \<and>
         local_receivers s' = local_receivers s \<and> calls s' = calls s \<and>
         bus.more s' = bus.more s)) \<and>
   (callback \<notin> set (registered_locally s t i) \<longrightarrow>
      (\<exists>s'. unsubscribe_locally t i callback s = Inl (AssertionError, s'))) \<and>
   (callback \<in> set (registered_locally s t i) \<longrightarrow>
      (\<exists>s'. unsubscribe_locally t i callback s = Inr s' \<and>
         registered_locally s' t i = remove1 callback (registered_locally s t i) \<and>
         (\<forall>k j. (k, j) \<noteq> (t, i) \<longrightarrow> registered_locally s' k j = registered_locally s k j) \<and>
         global_receivers s' = global_receivers s \<and> calls s' = calls s \<and>
         bus.more s' = bus.more s)) \<and>
   (callback \<notin> set (registered b ty) \<longrightarrow>
      (\<exists>b'. unsubscribe ty callback b = Inl (ValueError, b'))) \<and>
   (callback \<in> set (registered b ty) \<longrightarrow>
      (\<exists>b'. unsubscribe ty callback b = Inr b' \<and>
         registered b' ty = remove1 callback (registered b ty) \<and>
         (\<forall>k. k \<noteq> ty \<longrightarrow> registered b' k = registered b k) \<and>
         message_types b' = message_types b \<and> calls_simple b' = calls_simple b))"
proof (intro conjI impI)
  assume "callback \<notin> set (registered_globally s t)"
  then show "\<exists>s'. unsubscribe_globally t callback s = Inl (AssertionError, s')"
    by (simp add: unsubscribe_globally_missing)
next
  assume "callback \<in> set (registered_globally s t)"
  then show "\<exists>s'. unsubscribe_globally t callback s = Inr s' \<and>
         registered_globally s' t = remove1 callback (registered_globally s t) \<and>
         (\<forall>k. k \<noteq> t \<longrightarrow> registered_globally s' k = registered_globally s k) \<and>
         local_receivers s' = local_receivers s \<and> calls s' = calls s \<and>
         bus.more s' = bus.more s"
    by (simp add: unsubscribe_globally_present) (simp add: registered_globally_def)
next
  assume "callback \<notin> set (registered_locally s t i)"
  then show "\<exists>s'. unsubscribe_locally t i callback s = Inl (AssertionError, s')"
    by (simp add: unsubscribe_locally_missing)
next
  assume "callback \<in> set (registered_locally s t i)"
  then show "\<exists>s'. unsubscribe_locally t i callback s = Inr s' \<and>
         registered_locally s' t i = remove1 callback (registered_locally s t i) \<and>
         (\<forall>k j. (k, j) \<noteq> (t, i) \<longrightarrow> registered_locally s' k j = registered_locally s k j) \<and>
         global_receivers s' = global_receivers s \<and> calls s' = calls s \<and>
         bus.more s' = bus.more s"
    by (simp add: unsubscribe_locally_present) (simp add: registered_locally_def)
next
  assume "callback \<notin> set (registered b ty)"
  then show "\<exists>b'. unsubscribe ty callback b = Inl (ValueError, b')"
    by (simp add: unsubscribe_missing)
next
  assume "callback \<in> set (registered b ty)"
  then show "\<exists>b'. unsubscribe ty callback b = Inr b' \<and>
         registered b' ty = remove1 callback (registered b ty) \<and>
         (\<forall>k. k \<noteq> ty \<longrightarrow> registered b' k = registered b k) \<and>
         message_types b' = message_types b \<and> calls_simple b' = calls_simple b"
    by (simp add: unsubscribe_present) (simp add: registered_def)
qed

theorem unsubscribe_checked_witness:
  "5 \<notin> set (registered_globally init_bus 7) \<and>
   (\<exists>s'. unsubscribe_globally 7 5 init_bus = Inl (AssertionError, s')) \<and>
   5 \<notin> set (registered_locally init_bus 7 3) \<and>
   (\<exists>s'. unsubscribe_locally 7 3 5 init_bus = Inl (AssertionError, s')) \<and>
   6 \<notin> set (registered simple_fb ''foo'') \<and>
   (\<exists>b'. unsubscribe ''foo'' 6 simple_fb = Inl (ValueError, b')) \<and>
   5 \<in> set (registered_globally bus_both 7) \<and>
   (\<exists>s'. unsubscribe_globally 7 5 bus_both = Inr s' \<and> registered_globally s' 7 = []) \<and>
   5 \<in> set (registered_locally bus_both 7 3) \<and>
   (\<exists>s'. unsubscribe_locally 7 3 5 bus_both = Inr s' \<and> registered_locally s' 7 3 = [] \<and>
      registered_locally s' 7 4 = [9]) \<and>
   6 \<in> set (registered simple_sub ''foo'') \<and>
   (\<exists>b'. unsubscribe ''foo'' 6 simple_sub = Inr b' \<and> registered b' ''foo'' = [])"
proof -
  note a = unsubscribe_checked[where callback = 5 and s = init_bus and t = 7 and i = 3
      and b = simple_fb and ty = "''foo''"]
  note a' = unsubscribe_checked[where callback = 6 and s = init_bus and t = 7 and i = 3
      and b = simple_fb and ty = "''foo''"]
  note c = unsubscribe_checked[where callback = 5 and s = bus_both and t = 7 and i = 3
      and b = simple_sub and ty = "''foo''"]
  note c' = unsubscribe_checked[where callback = 6 and s = bus_both and t = 7 and i = 3
      and b = simple_sub and ty = "''foo''"]
  have 1: "\<exists>s'. unsubscribe_globally 7 5 init_bus = Inl (AssertionError, s')"
    using a by (simp add: init_bus_regs)
  have 2: "\<exists>s'. unsubscribe_locally 7 3 5 init_bus = Inl (AssertionError, s')"
    using a by (simp add: init_bus_regs)
  have 3: "\<exists>b'. unsubscribe ''foo'' 6 simple_fb = Inl (ValueError, b')"
    using a' by (simp add: simple_regs)
  have 4: "\<exists>s'. unsubscribe_globally 7 5 bus_both = Inr s' \<and> registered_globally s' 7 = []"
    using c by (auto simp add: bus_both_regs)
  have 5: "\<exists>s'. unsubscribe_locally 7 3 5 bus_both = Inr s' \<and> registered_locally s' 7 3 = [] \<and>
      registered_locally s' 7 4 = [9]"
    using c by (auto simp add: bus_both_regs)
  have 6: "\<exists>b'. unsubscribe ''foo'' 6 simple_sub = Inr b' \<and> registered b' ''foo'' = []"
    using c' by (auto simp add: simple_regs)
  show ?thesis using 1 2 3 4 5 6 by (simp add: bus_both_regs init_bus_regs simple_regs)
qed

text \<open>
  C7. When the callback is not registered under the key, \<^verbatim>\<open>discard_globally\<close>,
  \<^verbatim>\<open>discard_locally\<close> and \<^verbatim>\<open>SimpleMessageBus.discard\<close> return normally and every key
  of every registry reads as before, no callback is called, and the rest of the object is
  as before (the subscript in \<^verbatim>\<open>discard_globally\<close> and \<^verbatim>\<open>discard\<close> may store an
  empty list under a key that was missing, which reads as the missing key did;
  \<^verbatim>\<open>discard_locally\<close> returns the very same state). When the callback is registered,
  they remove its first registration under the key.
\<close>

theorem discard_never_fails:
  "(callback \<notin> set (registered_globally s t) \<longrightarrow>
      (\<exists>s'. discard_globally t callback s = Inr s' \<and>
         (\<forall>k. registered_globally s' k = registered_globally s k) \<and>
         local_receivers s' = local_receivers s \<and> calls s' = calls s \<and>
         bus.more s' = bus.more s)) \<and>
   (callback \<in> set (registered_globally s t) \<longrightarrow>
      (\<exists>s'. discard_globally t callback s = Inr s' \<and>
         registered_globally s' t = remove1 callback (registered_globally s t) \<and>
         (\<forall>k. k \<noteq> t \<longrightarrow> registered_globally s' k = registered_globally s k) \<and>
         local_receivers s' = local_receivers s \<and> calls s' = calls s \<and>
         bus.more s' = bus.more s)) \<and>
   (callback \<notin> set (registered_locally s t i) \<longrightarrow> discard_locally t i callback s = Inr s) \<and>
   (callback \<in> set (registered_locally s t i) \<longrightarrow>
      (\<exists>s'. discard_locally t i callback s = Inr s' \<and>
         registered_locally s' t i = remove1 callback (registered_locally s t i) \<and>
         (\<forall>k j. (k, j) \<noteq> (t, i) \<longrightarrow> registered_locally s' k j = registered_locally s k j) \<and>
         global_receivers s' = global_receivers s \<and> calls s' = calls s \<and>
         bus.more s' = bus.more s)) \<and>
   (callback \<notin> set (registered b ty) \<longrightarrow>
      (\<exists>b'. discard ty callback b = Inr b' \<and>
         (\<forall>k. registered b' k = registered b k) \<and>
         message_types b' = message_types b \<and> calls_simple b' = calls_simple b)) \<and>
   (callback \<in> set (registered b ty) \<longrightarrow>
      (\<exists>b'. discard ty callback b = Inr b' \<and>
         registered b' ty = remove1 callback (registered b ty) \<and>
         (\<forall>k. k \<noteq> ty \<longrightarrow> registered b' k = registered b k) \<and>
         message_types b' = message_types b \<and> calls_simple b' = calls_simple b))"
proof (intro conjI impI)
  assume "callback \<notin> set (registered_globally s t)"
  then show "\<exists>s'. discard_globally t callback s = Inr s' \<and>
         (\<forall>k. registered_globally s' k = registered_globally s k) \<and>
         local_receivers s' = local_receivers s \<and> calls s' = calls s \<and>
         bus.more s' = bus.more s"
    by (simp add: discard_globally_missing) (simp add: registered_globally_def)
next
  assume "callback \<in> set (registered_globally s t)"
  then show "\<exists>s'. discard_globally t callback s = Inr s' \<and>
         registered_globally s' t = remove1 callback (registered_globally s t) \<and>
         (\<forall>k. k \<noteq> t \<longrightarrow> registered_globally s' k = registered_globally s k) \<and>
         local_receivers s' = local_receivers s \<and> calls s' = calls s \<and>
         bus.more s' = bus.more s"
    by (simp add: discard_globally_present unsubscribe_globally_present)
       (simp add: registered_globally_def)
next
  assume "callback \<notin> set (registered_locally s t i)"
  then show "discard_locally t i callback s = Inr s"
    by (rule discard_locally_missing)
next
  assume "callback \<in> set (registered_locally s t i)"
  then show "\<exists>s'. discard_locally t i callback s = Inr s' \<and>
         registered_locally s' t i = remove1 callback (registered_locally s t i) \<and>
         (\<forall>k j. (k, j) \<noteq> (t, i) \<longrightarrow> registered_locally s' k j = registered_locally s k j) \<and>
         global_receivers s' = global_receivers s \<and> calls s' = calls s \<and>
         bus.more s' = bus.more s"
    by (simp add: discard_locally_present unsubscribe_locally_present)
       (simp add: registered_locally_def)
next
  assume "callback \<notin> set (registered b ty)"
  then show "\<exists>b'. discard ty callback b = Inr b' \<and>
         (\<forall>k. registered b' k = registered b k) \<and>
         message_types b' = message_types b \<and> calls_simple b' = calls_simple b"
    by (simp add: discard_missing) (simp add: registered_def)
next
  assume "callback \<in> set (registered b ty)"
  then show "\<exists>b'. discard ty callback b = Inr b' \<and>
         registered b' ty = remove1 callback (registered b ty) \<and>
         (\<forall>k. k \<noteq> ty \<longrightarrow> registered b' k = registered b k) \<and>
         message_types b' = message_types b \<and> calls_simple b' = calls_simple b"
    by (simp add: discard_present unsubscribe_present) (simp add: registered_def)
qed

theorem discard_never_fails_witness:
  "5 \<notin> set (registered_globally init_bus 7) \<and>
   (\<exists>s'. discard_globally 7 5 init_bus = Inr s' \<and> registered_globally s' 7 = [] \<and>
      local_receivers s' = local_receivers init_bus \<and> calls s' = calls init_bus) \<and>
   5 \<notin> set (registered_locally init_bus 7 3) \<and>
   discard_locally 7 3 5 init_bus = Inr init_bus \<and>
   6 \<notin> set (registered simple_fb ''foo'') \<and>
   (\<exists>b'. discard ''foo'' 6 simple_fb = Inr b' \<and> registered b' ''foo'' = []) \<and>
   5 \<in> set (registered_globally bus_both 7) \<and>
   (\<exists>s'. discard_globally 7 5 bus_both = Inr s' \<and> registered_globally s' 7 = []) \<and>
   5 \<in> set (registered_locally bus_both 7 3) \<and>
   (\<exists>s'. discard_locally 7 3 5 bus_both = Inr s' \<and> registered_locally s' 7 3 = [] \<and>
      registered_locally s' 7 4 = [9]) \<and>
   6 \<in> set (registered simple_sub ''foo'') \<and>
   (\<exists>b'. discard ''foo'' 6 simple_sub = Inr b' \<and> registered b' ''foo'' = [])"
proof -
  note a = discard_never_fails[where callback = 5 and s = init_bus and t = 7 and i = 3
      and b = simple_fb and ty = "''foo''"]
  note a' = discard_never_fails[where callback = 6 and s = init_bus and t = 7 and i = 3
      and b = simple_fb and ty = "''foo''"]
  note c = discard_never_fails[where callback = 5 and s = bus_both and t = 7 and i = 3
      and b = simple_sub and ty = "''foo''"]
  note c' = discard_never_fails[where callback = 6 and s = bus_both and t = 7 and i = 3
      and b = simple_sub and ty = "''foo''"]
  have 1: "\<exists>s'. discard_globally 7 5 init_bus = Inr s' \<and> registered_globally s' 7 = [] \<and>
      local_receivers s' = local_receivers init_bus \<and> calls s' = calls init_bus"
    using a by (auto simp add: init_bus_regs)
  have 2: "discard_locally 7 3 5 init_bus = Inr init_bus"
    using a by (simp add: init_bus_regs)
  have 3: "\<exists>b'. discard ''foo'' 6 simple_fb = Inr b' \<and> registered b' ''foo'' = []"
    using a' by (auto simp add: simple_regs)
  have 4: "\<exists>s'. discard_globally 7 5 bus_both = Inr s' \<and> registered_globally s' 7 = []"
    using c by (auto simp add: bus_both_regs)
  have 5: "\<exists>s'. discard_locally 7 3 5 bus_both = Inr s' \<and> registered_locally s' 7 3 = [] \<and>
      registered_locally s' 7 4 = [9]"
    using c by (auto simp add: bus_both_regs)
  have 6: "\<exists>b'. discard ''foo'' 6 simple_sub = Inr b' \<and> registered b' ''foo'' = []"
    using c' by (auto simp add: simple_regs)
  show ?thesis using 1 2 3 4 5 6 by (simp add: bus_both_regs init_bus_regs simple_regs)
qed

subsection \<open>SimpleMessageBus: subscribe and broadcast\<close>

lemma subscribe_unsupported:
  "ty \<notin> set (message_types b) \<Longrightarrow> subscribe ty callback b = Inl (TypeError, b)"
  by (simp add: subscribe_def)

lemma subscribe_duplicate:
  "ty \<in> set (message_types b) \<Longrightarrow> callback \<in> set (registered b ty) \<Longrightarrow>
   subscribe ty callback b = Inl (Exception, b)"
  by (simp add: subscribe_def Let_def registered_def dd_touch_member)

lemma subscribe_fresh:
  "ty \<in> set (message_types b) \<Longrightarrow> callback \<notin> set (registered b ty) \<Longrightarrow>
   subscribe ty callback b =
     Inr (b\<lparr>callbacks := (dd_touch (callbacks b) ty)(ty \<mapsto> registered b ty @ [callback])\<rparr>)"
  by (simp add: subscribe_def Let_def registered_def)

lemma simple_types:
  "message_types simple_fb = [''foo'', ''bar'']" "message_types simple_sub = [''foo'', ''bar'']"
  "calls_simple simple_sub = []"
  by (simp_all add: simple_fb_def simple_sub_def init_simple_def)

text \<open>
  C8. \<^verbatim>\<open>SimpleMessageBus.subscribe(type, callback)\<close> raises \<^verbatim>\<open>TypeError\<close> when the type
  is not among the message types given to the constructor, and \<^verbatim>\<open>Exception\<close> when the
  callback is already subscribed to the type; in both cases the bus is left as it was.
  Otherwise it returns normally and has appended the callback to the list of the type;
  the other types, the message types and the trace are as before.
\<close>

theorem subscribe_checks:
  "(ty \<notin> set (message_types b) \<longrightarrow> subscribe ty callback b = Inl (TypeError, b)) \<and>
   (ty \<in> set (message_types b) \<and> callback \<in> set (registered b ty) \<longrightarrow>
      subscribe ty callback b = Inl (Exception, b)) \<and>
   (ty \<in> set (message_types b) \<and> callback \<notin> set (registered b ty) \<longrightarrow>
      (\<exists>b'. subscribe ty callback b = Inr b' \<and>
         registered b' ty = registered b ty @ [callback] \<and>
         (\<forall>k. k \<noteq> ty \<longrightarrow> registered b' k = registered b k) \<and>
         message_types b' = message_types b \<and> calls_simple b' = calls_simple b))"
proof (intro conjI impI)
  assume "ty \<notin> set (message_types b)"
  then show "subscribe ty callback b = Inl (TypeError, b)" by (rule subscribe_unsupported)
next
  assume "ty \<in> set (message_types b) \<and> callback \<in> set (registered b ty)"
  then show "subscribe ty callback b = Inl (Exception, b)" by (simp add: subscribe_duplicate)
next
  assume "ty \<in> set (message_types b) \<and> callback \<notin> set (registered b ty)"
  then show "\<exists>b'. subscribe ty callback b = Inr b' \<and>
         registered b' ty = registered b ty @ [callback] \<and>
         (\<forall>k. k \<noteq> ty \<longrightarrow> registered b' k = registered b k) \<and>
         message_types b' = message_types b \<and> calls_simple b' = calls_simple b"
    by (simp add: subscribe_fresh) (simp add: registered_def)
qed

theorem subscribe_checks_witness:
  "''baz'' \<notin> set (message_types simple_fb) \<and>
   subscribe ''baz'' 6 simple_fb = Inl (TypeError, simple_fb) \<and>
   ''foo'' \<in> set (message_types simple_sub) \<and> 6 \<in> set (registered simple_sub ''foo'') \<and>
   subscribe ''foo'' 6 simple_sub = Inl (Exception, simple_sub) \<and>
   8 \<notin> set (registered simple_sub ''foo'') \<and>
   (\<exists>b'. subscribe ''foo'' 8 simple_sub = Inr b' \<and> registered b' ''foo'' = [6, 8])"
proof -
  note a = subscribe_checks[where ty = "''baz''" and callback = 6 and b = simple_fb]
  note c = subscribe_checks[where ty = "''foo''" and callback = 6 and b = simple_sub]
  note d = subscribe_checks[where ty = "''foo''" and callback = 8 and b = simple_sub]
  have 1: "subscribe ''baz'' 6 simple_fb = Inl (TypeError, simple_fb)"
    using a by (simp add: simple_types)
  have 2: "subscribe ''foo'' 6 simple_sub = Inl (Exception, simple_sub)"
    using c by (simp add: simple_types simple_regs)
  have 3: "\<exists>b'. subscribe ''foo'' 8 simple_sub = Inr b' \<and> registered b' ''foo'' = [6, 8]"
    using d by (auto simp add: simple_types simple_regs)
  show ?thesis using 1 2 3 by (simp add: simple_types simple_regs)
qed

lemma invoke_simple_quiet:
  assumes "quiet_simple env"
  shows "callbacks (invoke_simple env a c s) = callbacks s"
    and "calls_simple (invoke_simple env a c s) = calls_simple s @ [(c, a)]"
  using assms by (simp_all add: quiet_simple_def invoke_simple_def)

lemma foldl_invoke_simple_quiet:
  assumes "quiet_simple env"
  shows "callbacks (foldl (\<lambda>s c. invoke_simple env a c s) s cs) = callbacks s"
    and "calls_simple (foldl (\<lambda>s c. invoke_simple env a c s) s cs) =
           calls_simple s @ map (\<lambda>c. (c, a)) cs"
  by (induction cs arbitrary: s) (simp_all add: invoke_simple_quiet[OF assms])

lemma for_live_simple:
  assumes "quiet_simple env"
  shows "for_live (\<lambda>s. dd_get (callbacks s) ty) (invoke_simple env a) i s =
         Some (foldl (\<lambda>s c. invoke_simple env a c s) s (drop i (dd_get (callbacks s) ty)))"
  by (rule for_live_stable) (simp add: invoke_simple_quiet[OF assms])

lemma broadcast_simple_unknown:
  "ty \<notin> set (message_types b) \<Longrightarrow> broadcast_simple env ty args b = Some b"
  by (simp add: broadcast_simple_def)

lemma broadcast_simple_known:
  assumes "quiet_simple env" and "ty \<in> set (message_types b)"
  shows "\<exists>b'. broadcast_simple env ty args b = Some b' \<and>
           calls_simple b' = calls_simple b @ map (\<lambda>c. (c, args)) (registered b ty) \<and>
           (\<forall>k. registered b' k = registered b k)"
  using assms(2)
  by (simp add: broadcast_simple_def Let_def for_live_simple[OF assms(1)]
      foldl_invoke_simple_quiet[OF assms(1)] registered_def)

text \<open>
  C9. \<^verbatim>\<open>SimpleMessageBus.broadcast(type, payload)\<close> with a type that is not among the
  message types returns normally in the very same state, whatever the callbacks do: no
  callback is called. With a type among them, and callbacks that leave the bus alone, it
  returns after calling the callbacks subscribed to the type, in subscription order, each
  on the payload. The witness is scenario B of the specification.
\<close>

theorem broadcast_simple_types:
  "(ty \<notin> set (message_types b) \<longrightarrow> broadcast_simple env ty args b = Some b) \<and>
   (ty \<in> set (message_types b) \<and> quiet_simple env \<longrightarrow>
      (\<exists>b'. broadcast_simple env ty args b = Some b' \<and>
         calls_simple b' = calls_simple b @ map (\<lambda>c. (c, args)) (registered b ty) \<and>
         (\<forall>k. registered b' k = registered b k)))"
  by (simp add: broadcast_simple_unknown broadcast_simple_known)

theorem broadcast_simple_types_witness:
  "''baz'' \<notin> set (message_types simple_sub) \<and>
   broadcast_simple no_effect ''baz'' 1 simple_sub = Some simple_sub \<and>
   calls_simple simple_sub = [] \<and>
   ''foo'' \<in> set (message_types simple_sub) \<and>
   quiet_simple (no_effect :: cb \<Rightarrow> nat \<Rightarrow> nat simple_bus \<Rightarrow> nat simple_bus) \<and>
   (\<exists>b'. broadcast_simple no_effect ''foo'' 42 simple_sub = Some b' \<and>
      calls_simple b' = [(6, 42)])"
proof -
  have q: "quiet_simple (no_effect :: cb \<Rightarrow> nat \<Rightarrow> nat simple_bus \<Rightarrow> nat simple_bus)"
    by (simp add: quiet_simple_def no_effect_def)
  note a = broadcast_simple_types[where ty = "''baz''" and b = simple_sub and env = no_effect
      and args = 1]
  note c = broadcast_simple_types[where ty = "''foo''" and b = simple_sub and env = no_effect
      and args = 42]
  have 1: "broadcast_simple no_effect ''baz'' 1 simple_sub = Some simple_sub"
    using a by (simp add: simple_types)
  have 2: "\<exists>b'. broadcast_simple no_effect ''foo'' 42 simple_sub = Some b' \<and>
      calls_simple b' = [(6, 42)]"
    using c q by (auto simp add: simple_types simple_regs)
  show ?thesis using 1 2 q by (simp add: simple_types)
qed

subsection \<open>A callback registered twice\<close>

lemma count_list_remove1:
  "c \<in> set xs \<Longrightarrow> Suc (count_list (remove1 c xs) c) = count_list xs c"
  by (induction xs) auto

text \<open>
  C10. \<^verbatim>\<open>MessageBus.subscribe_globally\<close> checks nothing, so a callback can be registered
  for a type several times. After two registrations, \<^verbatim>\<open>unsubscribe_globally\<close> (and
  likewise \<^verbatim>\<open>discard_globally\<close>) returns normally and removes the first occurrence
  only: the callback is still registered, with one registration more than before the
  three calls. A broadcast of that type that follows, with callbacks that leave the bus
  alone, calls it once for each registration left; when the callback was not registered
  before, it is called exactly once.
\<close>

theorem duplicate_registration:
  "\<exists>s3. unsubscribe_globally t c (subscribe_globally t c (subscribe_globally t c s)) = Inr s3 \<and>
      discard_globally t c (subscribe_globally t c (subscribe_globally t c s)) = Inr s3 \<and>
      registered_globally s3 t = remove1 c (registered_globally s t @ [c, c]) \<and>
      c \<in> set (registered_globally s3 t) \<and>
      count_list (registered_globally s3 t) c = count_list (registered_globally s t) c + 1 \<and>
      (quiet env \<and> msg_class m = t \<longrightarrow>
         (\<exists>s4. broadcast env m s3 = Some s4 \<and>
            count_list (new_calls s3 s4) (c, m) =
              count_list (registered_globally s t) c + 1 +
              count_list (registered_locally s t (sender m)) c)) \<and>
      (quiet env \<and> msg_class m = t \<and> c \<notin> set (registered_globally s t) \<and>
       c \<notin> set (registered_locally s t (sender m)) \<longrightarrow>
         (\<exists>s4. broadcast env m s3 = Some s4 \<and> count_list (new_calls s3 s4) (c, m) = 1))"
proof -
  define s2 where "s2 = subscribe_globally t c (subscribe_globally t c s)"
  have g2: "registered_globally s2 t = registered_globally s t @ [c, c]"
    and l2: "\<And>k i. registered_locally s2 k i = registered_locally s k i"
    by (simp_all add: s2_def registered_subscribe_globally)
  have in2: "c \<in> set (registered_globally s2 t)" using g2 by simp
  define s3 where "s3 = s2\<lparr>global_receivers :=
      (global_receivers s2)(t \<mapsto> remove1 c (registered_globally s2 t))\<rparr>"
  have u: "unsubscribe_globally t c s2 = Inr s3"
    using in2 by (simp add: unsubscribe_globally_present s3_def)
  have d: "discard_globally t c s2 = Inr s3"
    using in2 u by (simp add: discard_globally_present)
  have g3: "registered_globally s3 t = remove1 c (registered_globally s t @ [c, c])"
    by (simp add: s3_def registered_globally_def g2[unfolded registered_globally_def])
  have l3: "\<And>k i. registered_locally s3 k i = registered_locally s k i"
    using l2 by (simp add: s3_def registered_locally_def)
  have cnt2: "count_list (registered_globally s t @ [c, c]) c =
      count_list (registered_globally s t) c + 2" by simp
  have "c \<in> set (registered_globally s t @ [c, c])" by simp
  from count_list_remove1[OF this] cnt2
  have cnt3: "count_list (registered_globally s3 t) c = count_list (registered_globally s t) c + 1"
    by (simp add: g3)
  have in3: "c \<in> set (registered_globally s3 t)"
    using cnt3 by (metis add_is_0 count_list_0_iff one_neq_zero)
  have b: "quiet env \<and> msg_class m = t \<longrightarrow>
         (\<exists>s4. broadcast env m s3 = Some s4 \<and>
            count_list (new_calls s3 s4) (c, m) =
              count_list (registered_globally s t) c + 1 +
              count_list (registered_locally s t (sender m)) c)"
  proof
    assume a: "quiet env \<and> msg_class m = t"
    then have q: "quiet env" and mt: "msg_class m = t" by simp_all
    from broadcast_quiet[OF q, of m s3] obtain s4 where
      b4: "broadcast env m s3 = Some s4" and c4: "calls s4 = calls s3 @ delivered s3 m"
      by blast
    have "new_calls s3 s4 = delivered s3 m" by (simp add: new_calls_def c4)
    then have "count_list (new_calls s3 s4) (c, m) =
        count_list (registered_globally s3 t) c + count_list (registered_locally s3 t (sender m)) c"
      by (simp add: delivered_def mt count_list_tag)
    then show "\<exists>s4. broadcast env m s3 = Some s4 \<and>
            count_list (new_calls s3 s4) (c, m) =
              count_list (registered_globally s t) c + 1 +
              count_list (registered_locally s t (sender m)) c"
      using b4 cnt3 l3 by simp
  qed
  have b1: "quiet env \<and> msg_class m = t \<and> c \<notin> set (registered_globally s t) \<and>
       c \<notin> set (registered_locally s t (sender m)) \<longrightarrow>
         (\<exists>s4. broadcast env m s3 = Some s4 \<and> count_list (new_calls s3 s4) (c, m) = 1)"
    using b by (auto simp add: count_list_0_iff)
  show ?thesis
    unfolding s2_def[symmetric] using u d g3 in3 cnt3 b b1 by blast
qed

theorem duplicate_registration_witness:
  "quiet (no_effect :: cb \<Rightarrow> message \<Rightarrow> bus \<Rightarrow> bus) \<and> msg_class msgA = 7 \<and>
   5 \<notin> set (registered_globally init_bus 7) \<and>
   5 \<notin> set (registered_locally init_bus 7 (sender msgA)) \<and>
   (\<exists>s3. unsubscribe_globally 7 5 (subscribe_globally 7 5 (subscribe_globally 7 5 init_bus)) = Inr s3 \<and>
      registered_globally s3 7 = [5] \<and>
      (\<exists>s4. broadcast no_effect msgA s3 = Some s4 \<and> count_list (new_calls s3 s4) (5, msgA) = 1))"
proof -
  have q: "quiet (no_effect :: cb \<Rightarrow> message \<Rightarrow> bus \<Rightarrow> bus)" by (rule quiet_no_effect)
  have m: "msg_class msgA = 7" by (simp add: msgA_def)
  from duplicate_registration[where t = 7 and c = 5 and s = init_bus and env = no_effect
      and m = msgA]
  show ?thesis using q m by (auto simp add: init_bus_regs)
qed

subsection \<open>Callbacks that subscribe or unsubscribe during dispatch\<close>









subsection \<open>Replay on a local subscription\<close>

text \<open>
  With the identity comparison the test of the loop in
  \<^verbatim>\<open>QueuingMessageBus.subscribe_locally\<close> is false for every message: the method
  registers the callback and replays nothing. Whatever the comparison is, a call that
  returns normally has called no callback and has left every queue as it was.
\<close>

lemma replay_matching_object_eq:
  "replay_matching object_eq env t i ms s = Some (Inr s)"
  by (induction ms) (simp_all add: object_eq_def)

lemma subscribe_locally_q_object_eq:
  "subscribe_locally_q object_eq env t i c s =
     Some (Inr ((subscribe_locally t i c s)\<lparr>message_queue := dd_touch (message_queue s) t\<rparr>))"
  by (simp add: subscribe_locally_q_def Let_def replay_matching_object_eq subscribe_locally_def)

lemma replay_matching_returns_unchanged:
  "replay_matching eq_class env t i ms s = Some (Inr s') \<Longrightarrow> s' = s"
  by (induction ms) (auto simp add: Let_def split: if_splits option.splits)

lemma qbus_pending_reached: "broadcast_q no_effect msgA init_qbus = Some qbus_pending"
  by (simp add: broadcast_q_def init_qbus_def qbus_pending_def msgA_def dd_touch_def dd_get_def)

lemma subscribe_locally_q_returns_unchanged:
  assumes "subscribe_locally_q eq_class env t i c s = Some (Inr s')"
  shows "calls s' = calls s" and "pending s' = pending s"
proof -
  from assms have "s' = (subscribe_locally t i c s)\<lparr>message_queue := dd_touch (message_queue s) t\<rparr>"
    by (simp add: subscribe_locally_q_def Let_def subscribe_locally_def
        replay_matching_returns_unchanged)
  then show "calls s' = calls s" and "pending s' = pending s"
    by (simp_all add: subscribe_locally_def Let_def pending_def fun_eq_iff)
qed

text \<open>
  C2, on the code. A message of class \<open>7\<close> and sender \<open>3\<close> is broadcast on the empty
  bus and is queued. \<^verbatim>\<open>subscribe_locally(7, 3, 5)\<close> then returns normally in the state
  \<^verbatim>\<open>MessageBus.subscribe_locally\<close> alone would give: callback \<open>5\<close> is registered, it was
  not called, and the message is still pending.
\<close>

theorem subscribe_locally_q_replays_nothing:
  "broadcast_q no_effect msgA init_qbus = Some qbus_pending \<and>
   pending qbus_pending 7 = [msgA] \<and> msg_class msgA = 7 \<and> sender msgA = 3 \<and>
   subscribe_locally_q object_eq no_effect 7 3 5 qbus_pending =
     Some (Inr (subscribe_locally 7 3 5 qbus_pending)) \<and>
   registered_locally (subscribe_locally 7 3 5 qbus_pending) 7 3 = [5] \<and>
   pending (subscribe_locally 7 3 5 qbus_pending) 7 = [msgA] \<and>
   calls (subscribe_locally 7 3 5 qbus_pending) = []"
proof -
  have 1: "pending qbus_pending 7 = [msgA]" by (simp add: pending_def qbus_pending_def)
  have 2: "msg_class msgA = 7" "sender msgA = 3" by (simp_all add: msgA_def)
  have 3: "subscribe_locally_q object_eq no_effect 7 3 5 qbus_pending =
     Some (Inr (subscribe_locally 7 3 5 qbus_pending))"
    by (simp add: subscribe_locally_q_object_eq)
       (simp add: subscribe_locally_def qbus_pending_def dd_touch_def)
  have 4: "registered_locally (subscribe_locally 7 3 5 qbus_pending) 7 3 = [5]"
    by (simp add: subscribe_locally_def registered_locally_def qbus_pending_def)
  have 5: "pending (subscribe_locally 7 3 5 qbus_pending) 7 = [msgA]"
    by (simp add: subscribe_locally_def pending_def qbus_pending_def)
  have 6: "calls (subscribe_locally 7 3 5 qbus_pending) = []"
    by (simp add: subscribe_locally_def qbus_pending_def)
  show ?thesis using qbus_pending_reached 1 2 3 4 5 6 by simp
qed

subsection \<open>Replay against the reference\<close>

text \<open>
  With quiet callbacks, the replay of \<^verbatim>\<open>QueuingMessageBus.subscribe_globally\<close> takes each
  message off the queue before it broadcasts it, and it makes the calls and leaves the
  queues and the registries that the reference does.
\<close>

lemma broadcast_each_closed:
  assumes "quiet_q env"
  shows "\<exists>s'. broadcast_each env xs s = Some s' \<and>
     (\<forall>k. registered_globally s' k = registered_globally s k) \<and>
     (\<forall>k i. registered_locally s' k i = registered_locally s k i) \<and>
     calls s' = calls s @ concat (map (delivered s) xs) \<and>
     (\<forall>k. pending s' k =
        pending s k @ filter (\<lambda>x. msg_class x = k \<and> delivered s x = []) xs)"
proof (induction xs arbitrary: s)
  case Nil
  then show ?case by simp
next
  case (Cons x xs)
  from broadcast_q_quiet[OF assms, of x s] obtain s1 where
    b: "broadcast_q env x s = Some s1" and
    g1: "\<forall>k. registered_globally s1 k = registered_globally s k" and
    l1: "\<forall>k i. registered_locally s1 k i = registered_locally s k i" and
    c1: "calls s1 = calls s @ delivered s x" and
    p1: "\<forall>k. pending s1 k =
        (if k = msg_class x \<and> delivered s x = [] then pending s k @ [x] else pending s k)"
    by blast
  have d1: "delivered s1 = delivered s" by (rule delivered_cong[OF g1 l1])
  from Cons.IH[of s1] obtain s' where
    r: "broadcast_each env xs s1 = Some s'" and
    g2: "\<forall>k. registered_globally s' k = registered_globally s1 k" and
    l2: "\<forall>k i. registered_locally s' k i = registered_locally s1 k i" and
    c2: "calls s' = calls s1 @ concat (map (delivered s1) xs)" and
    p2: "\<forall>k. pending s' k =
        pending s1 k @ filter (\<lambda>x. msg_class x = k \<and> delivered s1 x = []) xs"
    by blast
  have "broadcast_each env (x # xs) s = Some s'" using b r by simp
  then show ?case using g1 g2 l1 l2 c1 c2 p1 p2 d1 by auto
qed

lemma subscribe_globally_q_as_reference:
  assumes "quiet_q env"
  shows "\<exists>s1 s2. subscribe_globally_q env t c s = Some s1 \<and>
           ref_subscribe_globally env t c s = Some s2 \<and>
           calls s1 = calls s2 \<and>
           (\<forall>k. pending s1 k = pending s2 k) \<and>
           (\<forall>k. registered_globally s1 k = registered_globally s2 k) \<and>
           (\<forall>k i. registered_locally s1 k i = registered_locally s2 k i)"
proof -
  define s0 where "s0 = subscribe_globally t c s"
  have ne: "registered_globally s0 t \<noteq> []"
    by (simp add: s0_def registered_subscribe_globally)
  define sc where "sc = s0\<lparr>message_queue := (message_queue s0)(t \<mapsto> [])\<rparr>"
  have gc: "\<forall>k. registered_globally sc k = registered_globally s0 k"
    and lc: "\<forall>k i. registered_locally sc k i = registered_locally s0 k i"
    and cc: "calls sc = calls s0"
    and pc: "\<forall>k. pending sc k = (if k = t then [] else pending s0 k)"
    by (simp_all add: sc_def registered_globally_def registered_locally_def pending_def)
  have dc: "delivered sc = delivered s0" by (rule delivered_cong[OF gc lc])
  from replay_all_closed[OF assms ne] obtain s1 where
    r1: "replay_all env t s0 = Some s1" and
    g1: "\<forall>k. registered_globally s1 k = registered_globally s0 k" and
    l1: "\<forall>k i. registered_locally s1 k i = registered_locally s0 k i" and
    c1: "calls s1 = calls s0 @ concat (map (delivered s0) (pending s0 t))" and
    p1: "\<forall>k. pending s1 k =
        (if k = t then []
         else pending s0 k @ filter (\<lambda>x. msg_class x = k \<and> delivered s0 x = []) (pending s0 t))"
    by blast
  from broadcast_each_closed[OF assms, of "pending s0 t" sc] obtain s2 where
    r2: "broadcast_each env (pending s0 t) sc = Some s2" and
    g2: "\<forall>k. registered_globally s2 k = registered_globally sc k" and
    l2: "\<forall>k i. registered_locally s2 k i = registered_locally sc k i" and
    c2: "calls s2 = calls sc @ concat (map (delivered sc) (pending s0 t))" and
    p2: "\<forall>k. pending s2 k =
        pending sc k @ filter (\<lambda>x. msg_class x = k \<and> delivered sc x = []) (pending s0 t)"
    by blast
  have ft: "filter (\<lambda>x. msg_class x = t \<and> delivered s0 x = []) (pending s0 t) = []"
    using ne delivered_nonempty by (auto simp add: filter_empty_conv)
  have a: "subscribe_globally_q env t c s = Some s1"
    using r1 by (simp add: subscribe_globally_q_def s0_def)
  have b: "ref_subscribe_globally env t c s = Some s2"
    using r2 by (simp add: ref_subscribe_globally_def Let_def s0_def sc_def)
  have "calls s1 = calls s2" using c1 c2 cc dc by simp
  moreover have "\<forall>k. pending s1 k = pending s2 k" using p1 p2 pc dc ft by simp
  moreover have "\<forall>k. registered_globally s1 k = registered_globally s2 k" using g1 g2 gc by simp
  moreover have "\<forall>k i. registered_locally s1 k i = registered_locally s2 k i" using l1 l2 lc by simp
  ultimately show ?thesis using a b by blast
qed

lemma ref_local_run:
  "map_option calls (ref_subscribe_locally no_effect 7 3 5 qbus_pending) = Some [(5, msgA)]"
  "map_option (\<lambda>s. pending s 7) (ref_subscribe_locally no_effect 7 3 5 qbus_pending) = Some []"
  by (simp_all add: ref_subscribe_locally_def Let_def subscribe_locally_def pending_def
      qbus_pending_def msgA_def broadcast_q_def broadcast_def for_live.simps invoke_def
      no_effect_def dd_touch_def dd_get_def)

lemma always_eq_run:
  "raised (subscribe_locally_q always_eq no_effect 7 3 5 qbus_pending) = Some RuntimeError"
  by (simp add: subscribe_locally_q_def Let_def subscribe_locally_def always_eq_def raised_def
      qbus_pending_def msgA_def broadcast_q_def broadcast_def for_live.simps invoke_def
      no_effect_def dd_touch_def dd_get_def)

text \<open>
  C3, on the code. On the bus where a message of sender \<open>3\<close> is pending, the reference
  for \<^verbatim>\<open>subscribe_locally(7, 3, 5)\<close> calls callback \<open>5\<close> on the message and empties the
  queue, while the method of the code calls nothing and leaves the message pending. Under
  a comparison that holds, the method removes the message from the deque it is iterating
  and ends with \<^verbatim>\<open>RuntimeError\<close>.
\<close>

theorem replay_differs_from_reference:
  "pending qbus_pending 7 = [msgA] \<and> sender msgA = 3 \<and>
   map_option calls (ref_subscribe_locally no_effect 7 3 5 qbus_pending) = Some [(5, msgA)] \<and>
   map_option (\<lambda>s. pending s 7) (ref_subscribe_locally no_effect 7 3 5 qbus_pending) = Some [] \<and>
   map_option (map_sum fst calls) (subscribe_locally_q object_eq no_effect 7 3 5 qbus_pending) =
     Some (Inr []) \<and>
   map_option (map_sum fst (\<lambda>s. pending s 7))
     (subscribe_locally_q object_eq no_effect 7 3 5 qbus_pending) = Some (Inr [msgA]) \<and>
   raised (subscribe_locally_q always_eq no_effect 7 3 5 qbus_pending) = Some RuntimeError"
proof -
  have 1: "pending qbus_pending 7 = [msgA]" by (simp add: pending_def qbus_pending_def)
  have 2: "sender msgA = 3" by (simp add: msgA_def)
  have 3: "map_option (map_sum fst calls)
      (subscribe_locally_q object_eq no_effect 7 3 5 qbus_pending) = Some (Inr [])"
    by (simp add: subscribe_locally_q_object_eq subscribe_locally_def qbus_pending_def)
  have 4: "map_option (map_sum fst (\<lambda>s. pending s 7))
     (subscribe_locally_q object_eq no_effect 7 3 5 qbus_pending) = Some (Inr [msgA])"
    by (simp add: subscribe_locally_q_object_eq subscribe_locally_def qbus_pending_def pending_def)
  show ?thesis using 1 2 3 4 ref_local_run always_eq_run by simp
qed

subsection \<open>A handler that unsubscribes during the replay\<close>

text \<open>
  The \<^verbatim>\<open>while\<close> loop of \<^verbatim>\<open>QueuingMessageBus.subscribe_globally\<close> does not return from a
  state where the class has no global receiver and the pending messages of the class have
  no local receiver: each message it takes off the queue is put back by the broadcast.
\<close>

lemma broadcast_q_no_receiver:
  assumes "registered_globally s (msg_class x) = []"
      and "registered_locally s (msg_class x) (sender x) = []"
  shows "\<exists>s'. broadcast_q env x s = Some s' \<and>
           (\<forall>k. registered_globally s' k = registered_globally s k) \<and>
           (\<forall>k i. registered_locally s' k i = registered_locally s k i) \<and>
           (\<forall>k. pending s' k = (if k = msg_class x then pending s k @ [x] else pending s k))"
  using assms
  by (simp add: broadcast_q_def Let_def registered_globally_def registered_locally_def pending_def)

lemma replay_all_returns_not_stuck:
  assumes "replay_all env t s = Some y"
  shows "\<not> (registered_globally s t = [] \<and> pending s t \<noteq> [] \<and>
            (\<forall>x \<in> set (pending s t). msg_class x = t \<and> registered_locally s t (sender x) = []))"
proof (rule replay_all.raw_induct[where P = "\<lambda>env t s y.
    \<not> (registered_globally s t = [] \<and> pending s t \<noteq> [] \<and>
       (\<forall>x \<in> set (pending s t). msg_class x = t \<and> registered_locally s t (sender x) = []))",
    OF _ assms])
  fix rec :: "(cb \<Rightarrow> message \<Rightarrow> 'a qbus_scheme \<Rightarrow> 'a qbus_scheme) \<Rightarrow> mtype \<Rightarrow>
      'a qbus_scheme \<Rightarrow> 'a qbus_scheme option"
  fix env t s y
  assume ih: "\<And>env t s y. rec env t s = Some y \<Longrightarrow>
      \<not> (registered_globally s t = [] \<and> pending s t \<noteq> [] \<and>
       (\<forall>x \<in> set (pending s t). msg_class x = t \<and> registered_locally s t (sender x) = []))"
  assume step: "(let s1 = s\<lparr>message_queue := dd_touch (message_queue s) t\<rparr>;
          q = dd_get (message_queue s1) t
      in if length q \<noteq> 0
         then Option.bind
                (broadcast_q env (hd q) (s1\<lparr>message_queue := (message_queue s1)(t \<mapsto> tl q)\<rparr>))
                (rec env t)
         else Some s1) = Some y"
  show "\<not> (registered_globally s t = [] \<and> pending s t \<noteq> [] \<and>
       (\<forall>x \<in> set (pending s t). msg_class x = t \<and> registered_locally s t (sender x) = []))"
  proof
    assume stuck: "registered_globally s t = [] \<and> pending s t \<noteq> [] \<and>
       (\<forall>x \<in> set (pending s t). msg_class x = t \<and> registered_locally s t (sender x) = [])"
    then obtain x q where xq: "pending s t = x # q" by (cases "pending s t") auto
    have cx: "msg_class x = t" and lx: "registered_locally s t (sender x) = []"
      using stuck xq by auto
    define s1 where "s1 = s\<lparr>message_queue := (dd_touch (message_queue s) t)(t \<mapsto> q)\<rparr>"
    have g1: "\<forall>k. registered_globally s1 k = registered_globally s k"
      and l1: "\<forall>k i. registered_locally s1 k i = registered_locally s k i"
      and p1: "pending s1 t = q"
      by (simp_all add: s1_def registered_globally_def registered_locally_def pending_def)
    have "registered_globally s1 (msg_class x) = []"
      and "registered_locally s1 (msg_class x) (sender x) = []"
      using stuck cx lx g1 l1 by simp_all
    from broadcast_q_no_receiver[OF this, of env] obtain s2 where
      b: "broadcast_q env x s1 = Some s2" and
      g2: "\<forall>k. registered_globally s2 k = registered_globally s1 k" and
      l2: "\<forall>k i. registered_locally s2 k i = registered_locally s1 k i" and
      p2: "\<forall>k. pending s2 k = (if k = msg_class x then pending s1 k @ [x] else pending s1 k)"
      by blast
    have p2t: "pending s2 t = q @ [x]" using p2 p1 cx by simp
    have body: "rec env t s2 = Some y"
      using step xq b by (simp add: Let_def pending_def s1_def)
    have "registered_globally s2 t = [] \<and> pending s2 t \<noteq> [] \<and>
       (\<forall>x \<in> set (pending s2 t). msg_class x = t \<and> registered_locally s2 t (sender x) = [])"
      using stuck xq g1 g2 l1 l2 p2t by auto
    with ih[OF body] show False by blast
  qed
qed

lemma replay_all_stuck:
  assumes "registered_globally s t = []" and "pending s t \<noteq> []"
      and "\<forall>x \<in> set (pending s t). msg_class x = t \<and> registered_locally s t (sender x) = []"
  shows "replay_all env t s = None"
proof (cases "replay_all env t s")
  case None
  then show ?thesis .
next
  case (Some y)
  from replay_all_returns_not_stuck[OF this] assms show ?thesis by blast
qed

text \<open>
  With two messages pending and the one-shot handler, the replay of the code reaches such a
  state after the first message, while the reference returns with the second message
  pending.
\<close>

lemma one_shot_first_step:
  "broadcast_q unsub_self msgA
     ((subscribe_globally 7 5 qbus_two_pending)\<lparr>message_queue := [7 \<mapsto> [msgB]]\<rparr>) =
   Some qbus_after_first"
  by (simp add: broadcast_q_def broadcast_def for_live.simps invoke_def unsub_self_def
      unsubscribe_globally_def subscribe_globally_def qbus_two_pending_def qbus_after_first_def
      msgA_def dd_touch_def dd_get_def)

lemma one_shot_stuck: "replay_all unsub_self 7 qbus_after_first = None"
  by (rule replay_all_stuck)
     (simp_all add: qbus_after_first_def registered_globally_def registered_locally_def
       pending_def msgB_def)

lemma one_shot_replay_never_returns:
  "subscribe_globally_q unsub_self 7 5 qbus_two_pending = None"
proof -
  have "replay_all unsub_self 7 (subscribe_globally 7 5 qbus_two_pending) =
      Option.bind (broadcast_q unsub_self msgA
         ((subscribe_globally 7 5 qbus_two_pending)\<lparr>message_queue := [7 \<mapsto> [msgB]]\<rparr>))
        (replay_all unsub_self 7)"
    by (subst replay_all.simps)
       (simp add: Let_def subscribe_globally_def qbus_two_pending_def dd_touch_def dd_get_def)
  then show ?thesis
    by (simp add: subscribe_globally_q_def one_shot_first_step one_shot_stuck)
qed

lemma one_shot_reference_returns:
  "map_option calls (ref_subscribe_globally unsub_self 7 5 qbus_two_pending) = Some [(5, msgA)]"
  "map_option (\<lambda>s. pending s 7) (ref_subscribe_globally unsub_self 7 5 qbus_two_pending) =
     Some [msgB]"
  by (simp_all add: ref_subscribe_globally_def Let_def pending_def broadcast_q_def broadcast_def
      for_live.simps invoke_def unsub_self_def unsubscribe_globally_def subscribe_globally_def
      qbus_two_pending_def msgA_def msgB_def dd_touch_def dd_get_def)

end
